theory Spec2Isabelle
  imports Complex_Main "HOL-Library.Sublist"
begin

section \<open>Dynamically typed values, records and schemas\<close>

text \<open>
  A Go \<open>interface{}\<close> value is modelled by its dynamic type and payload. The universe
  holds what \<open>encoding/json\<close> decodes into (\<open>nil\<close>, \<open>bool\<close>, \<open>string\<close>, \<open>float64\<close>,
  \<open>[]interface{}\<close>, \<open>map[string]interface{}\<close>) together with the further numeric types
  that the type switch of \<open>validateFieldType\<close> names (\<open>float32\<close>, \<open>int\<close>, \<open>int32\<close>,
  \<open>int64\<close>). A floating-point payload is the real number it denotes; an integer payload
  is the integer it denotes. Go values of any other dynamic type are outside this universe.
\<close>

type_synonym error = string

datatype gvalue =
    GNil
  | GBool bool
  | GString string
  | GFloat64 real
  | GFloat32 real
  | GInt int
  | GInt32 int
  | GInt64 int
  | GArray "gvalue list"
  | GObject "(string \<times> gvalue) list"

text \<open>
  \<open>type Record map[string]interface{}\<close>: an association list with pairwise distinct keys;
  \<open>map_of\<close> is the lookup \<open>record[key]\<close>. The order of the list is the order in which a
  \<open>range\<close> over the map happens to visit the entries.
\<close>

type_synonym Record = "(string \<times> gvalue) list"

record FieldConfig =
  Name :: string
  Type :: string

record SchemaConfig =
  Fields :: "FieldConfig list"

text \<open>
  An open output file: the bytes written to it so far, and whether the handle has been
  closed. A write to an open file succeeds; a write to a closed one is an error.
\<close>

record wfile =
  content :: string
  closed :: bool

record JSONSource =
  path :: string
  mode :: string
  schema :: SchemaConfig
  isWritable :: bool
  writer :: "wfile option"

text \<open>The verb \<open>%T\<close> of package \<open>fmt\<close>: the name of the dynamic type.\<close>

fun type_name :: "gvalue \<Rightarrow> string" where
  "type_name GNil = ''<nil>''"
| "type_name (GBool _) = ''bool''"
| "type_name (GString _) = ''string''"
| "type_name (GFloat64 _) = ''float64''"
| "type_name (GFloat32 _) = ''float32''"
| "type_name (GInt _) = ''int''"
| "type_name (GInt32 _) = ''int32''"
| "type_name (GInt64 _) = ''int64''"
| "type_name (GArray _) = ''[]interface {}''"
| "type_name (GObject _) = ''map[string]interface {}''"

section \<open>Construction of a JSON source\<close>

text \<open>
  \<open>NewJSONSource\<close>: the path must be a string entry of the configuration map; the mode is
  read with a type assertion whose failure is ignored, and the empty mode defaults to
  \<open>array\<close>.
\<close>

definition NewJSONSource :: "(string \<times> gvalue) list \<Rightarrow> SchemaConfig \<Rightarrow> error + JSONSource" where
  "NewJSONSource cfg sch =
     (case map_of cfg ''path'' of
        Some (GString p) \<Rightarrow>
          (let m0 = (case map_of cfg ''mode'' of Some (GString m) \<Rightarrow> m | _ \<Rightarrow> []);
               m = (if m0 = [] then ''array'' else m0)
           in if m \<noteq> ''array'' \<and> m \<noteq> ''lines''
              then Inl (''unsupported mode: '' @ m @ '' (must be 'array' or 'lines')'')
              else Inr \<lparr>path = p, mode = m, schema = sch, isWritable = False, writer = None\<rparr>)
      | _ \<Rightarrow> Inl ''path is required for JSON source'')"

section \<open>Record validation\<close>

definition validateFieldType :: "gvalue \<Rightarrow> string \<Rightarrow> error option" where
  "validateFieldType v expectedType =
     (if expectedType = ''string'' then
        (case v of GString _ \<Rightarrow> None
         | _ \<Rightarrow> Some (''expected string, got '' @ type_name v))
      else if expectedType = ''number'' then
        (case v of GFloat64 _ \<Rightarrow> None | GFloat32 _ \<Rightarrow> None
         | GInt _ \<Rightarrow> None | GInt32 _ \<Rightarrow> None | GInt64 _ \<Rightarrow> None
         | _ \<Rightarrow> Some (''expected number, got '' @ type_name v))
      else if expectedType = ''boolean'' then
        (case v of GBool _ \<Rightarrow> None
         | _ \<Rightarrow> Some (''expected boolean, got '' @ type_name v))
      else if expectedType = ''array'' then
        (case v of GArray _ \<Rightarrow> None
         | _ \<Rightarrow> Some (''expected array, got '' @ type_name v))
      else if expectedType = ''object'' then
        (case v of GObject _ \<Rightarrow> None
         | _ \<Rightarrow> Some (''expected object, got '' @ type_name v))
      else Some (''unsupported type: '' @ expectedType))"

text \<open>The loop of \<open>validateRecord\<close> over the schema's fields, returning at the first error.\<close>

fun validateFields :: "FieldConfig list \<Rightarrow> Record \<Rightarrow> error option" where
  "validateFields [] rec = None"
| "validateFields (field # rest) rec =
     (case map_of rec (Name field) of
        None \<Rightarrow> Some (''missing required field: '' @ Name field)
      | Some v \<Rightarrow>
          (case validateFieldType v (Type field) of
             Some err \<Rightarrow> Some (''field '' @ Name field @ '': '' @ err)
           | None \<Rightarrow> validateFields rest rec))"

definition validateRecord :: "JSONSource \<Rightarrow> Record \<Rightarrow> error option" where
  "validateRecord j rec = validateFields (Fields (schema j)) rec"












section \<open>Strings and formatting (packages \<open>strings\<close>, \<open>strconv\<close> and \<open>fmt\<close>)\<close>

text \<open>
  A Go string is a sequence of bytes; a \<open>char\<close> is one byte. The library functions the
  program calls are modelled on bytes. The conversions between \<open>float64\<close> and text are
  floating-point algorithms of \<open>strconv\<close>; they are taken as parameters.
\<close>

record strconv =
  formatG :: "real \<Rightarrow> string"
  formatJSON :: "real \<Rightarrow> error + string"
  parseFloat :: "string \<Rightarrow> real option"

definition byte :: "char \<Rightarrow> nat" where
  "byte c = of_char c"

definition digit_char :: "nat \<Rightarrow> char" where
  "digit_char d = char_of (48 + d)"

text \<open>Decimal digits of a natural number (the verb \<open>%d\<close>).\<close>

fun show_nat_fuel :: "nat \<Rightarrow> nat \<Rightarrow> string" where
  "show_nat_fuel 0 n = [digit_char (n mod 10)]"
| "show_nat_fuel (Suc k) n =
     (if n < 10 then [digit_char n] else show_nat_fuel k (n div 10) @ [digit_char (n mod 10)])"

definition show_nat :: "nat \<Rightarrow> string" where
  "show_nat n = show_nat_fuel n n"

definition show_int :: "int \<Rightarrow> string" where
  "show_int i = (if i < 0 then CHR ''-'' # show_nat (nat (- i)) else show_nat (nat i))"

text \<open>
  \<open>strings.ReplaceAll(s, old, new)\<close>: the non-overlapping occurrences of \<open>old\<close>, found from
  left to right, are replaced by \<open>new\<close>. For an empty \<open>old\<close> Go inserts \<open>new\<close> in front of
  every character and at the end; the model does so in front of every byte.
\<close>

fun replace_scan :: "nat \<Rightarrow> string \<Rightarrow> string \<Rightarrow> string \<Rightarrow> string" where
  "replace_scan skip old new [] = []"
| "replace_scan (Suc k) old new (c # cs) = replace_scan k old new cs"
| "replace_scan 0 old new (c # cs) =
     (if prefix old (c # cs) then new @ replace_scan (length old - 1) old new cs
      else c # replace_scan 0 old new cs)"

definition ReplaceAll :: "string \<Rightarrow> string \<Rightarrow> string \<Rightarrow> string" where
  "ReplaceAll s old new =
     (if old = [] then new @ concat (map (\<lambda>c. c # new) s)
      else replace_scan 0 old new s)"

text \<open>\<open>strings.Join\<close>.\<close>

fun Join :: "string list \<Rightarrow> string \<Rightarrow> string" where
  "Join [] sep = []"
| "Join [x] sep = x"
| "Join (x # y # ys) sep = x @ sep @ Join (y # ys) sep"

text \<open>Byte-wise order of strings (Go's \<open><\<close> on strings), and sorting of map entries by key.\<close>

fun bytes_le :: "string \<Rightarrow> string \<Rightarrow> bool" where
  "bytes_le [] ys = True"
| "bytes_le (x # xs) [] = False"
| "bytes_le (x # xs) (y # ys) =
     (if byte x < byte y then True else if x = y then bytes_le xs ys else False)"

fun insert_entry :: "string \<times> 'a \<Rightarrow> (string \<times> 'a) list \<Rightarrow> (string \<times> 'a) list" where
  "insert_entry e [] = [e]"
| "insert_entry e (x # xs) =
     (if bytes_le (fst e) (fst x) then e # x # xs else x # insert_entry e xs)"

definition sort_entries :: "(string \<times> 'a) list \<Rightarrow> (string \<times> 'a) list" where
  "sort_entries es = foldr insert_entry es []"

text \<open>
  The verb \<open>%v\<close>: a string prints as itself, \<open>nil\<close> as \<open><nil>\<close>, a slice as its elements
  between brackets, a map as \<open>map[k:v ...]\<close> with the keys sorted.
\<close>

fun sprint_v :: "strconv \<Rightarrow> gvalue \<Rightarrow> string" where
  "sprint_v cv GNil = ''<nil>''"
| "sprint_v cv (GBool b) = (if b then ''true'' else ''false'')"
| "sprint_v cv (GString s) = s"
| "sprint_v cv (GFloat64 r) = formatG cv r"
| "sprint_v cv (GFloat32 r) = formatG cv r"
| "sprint_v cv (GInt i) = show_int i"
| "sprint_v cv (GInt32 i) = show_int i"
| "sprint_v cv (GInt64 i) = show_int i"
| "sprint_v cv (GArray vs) = ''['' @ Join (map (sprint_v cv) vs) '' '' @ '']''"
| "sprint_v cv (GObject es) =
     ''map['' @ Join (map (\<lambda>(k, s). k @ '':'' @ s)
                     (sort_entries (map (\<lambda>(k, v). (k, sprint_v cv v)) es))) '' '' @ '']''"

text \<open>
  \<open>strings.TrimSpace\<close> removes leading and trailing white space as Unicode defines it;
  the white space characters are listed by their UTF-8 encodings.
\<close>

definition space_seqs :: "string list" where
  "space_seqs =
     [[char_of (9::nat)], [char_of (10::nat)], [char_of (11::nat)], [char_of (12::nat)],
      [char_of (13::nat)], [char_of (32::nat)],
      [char_of (194::nat), char_of (133::nat)], [char_of (194::nat), char_of (160::nat)],
      [char_of (225::nat), char_of (154::nat), char_of (128::nat)],
      [char_of (226::nat), char_of (128::nat), char_of (128::nat)],
      [char_of (226::nat), char_of (128::nat), char_of (129::nat)],
      [char_of (226::nat), char_of (128::nat), char_of (130::nat)],
      [char_of (226::nat), char_of (128::nat), char_of (131::nat)],
      [char_of (226::nat), char_of (128::nat), char_of (132::nat)],
      [char_of (226::nat), char_of (128::nat), char_of (133::nat)],
      [char_of (226::nat), char_of (128::nat), char_of (134::nat)],
      [char_of (226::nat), char_of (128::nat), char_of (135::nat)],
      [char_of (226::nat), char_of (128::nat), char_of (136::nat)],
      [char_of (226::nat), char_of (128::nat), char_of (137::nat)],
      [char_of (226::nat), char_of (128::nat), char_of (138::nat)],
      [char_of (226::nat), char_of (128::nat), char_of (168::nat)],
      [char_of (226::nat), char_of (128::nat), char_of (169::nat)],
      [char_of (226::nat), char_of (128::nat), char_of (175::nat)],
      [char_of (226::nat), char_of (129::nat), char_of (159::nat)],
      [char_of (227::nat), char_of (128::nat), char_of (128::nat)]]"

definition leading_space :: "string \<Rightarrow> nat" where
  "leading_space s = (case filter (\<lambda>w. prefix w s) space_seqs of [] \<Rightarrow> 0 | w # _ \<Rightarrow> length w)"

fun trim_left :: "nat \<Rightarrow> string \<Rightarrow> string" where
  "trim_left skip [] = []"
| "trim_left (Suc k) (c # cs) = trim_left k cs"
| "trim_left 0 (c # cs) =
     (case leading_space (c # cs) of 0 \<Rightarrow> c # cs | Suc n \<Rightarrow> trim_left n cs)"

definition trailing_space :: "string \<Rightarrow> nat" where
  "trailing_space r = (case filter (\<lambda>w. prefix (rev w) r) space_seqs of [] \<Rightarrow> 0 | w # _ \<Rightarrow> length w)"

fun trim_right_rev :: "nat \<Rightarrow> string \<Rightarrow> string" where
  "trim_right_rev skip [] = []"
| "trim_right_rev (Suc k) (c # cs) = trim_right_rev k cs"
| "trim_right_rev 0 (c # cs) =
     (case trailing_space (c # cs) of 0 \<Rightarrow> c # cs | Suc n \<Rightarrow> trim_right_rev n cs)"

definition TrimSpace :: "string \<Rightarrow> string" where
  "TrimSpace s = rev (trim_right_rev 0 (rev (trim_left 0 s)))"

section \<open>JSON text (package \<open>encoding/json\<close>)\<close>

subsection \<open>UTF-8\<close>

definition cont_byte :: "char \<Rightarrow> bool" where
  "cont_byte c = (128 \<le> byte c \<and> byte c < 192)"

text \<open>The length of the well-formed UTF-8 sequence at the head of a string, or 0.\<close>

definition utf8_len :: "string \<Rightarrow> nat" where
  "utf8_len s =
     (case s of
        [] \<Rightarrow> 0
      | a # r \<Rightarrow>
         (if byte a < 128 then 1
          else if 194 \<le> byte a \<and> byte a < 224 then
            (case r of b # _ \<Rightarrow> if cont_byte b then 2 else 0 | _ \<Rightarrow> 0)
          else if 224 \<le> byte a \<and> byte a < 240 then
            (case r of b # c # _ \<Rightarrow>
               if cont_byte b \<and> cont_byte c
                  \<and> (byte a = 224 \<longrightarrow> 160 \<le> byte b)
                  \<and> (byte a = 237 \<longrightarrow> byte b < 160)
               then 3 else 0
             | _ \<Rightarrow> 0)
          else if 240 \<le> byte a \<and> byte a < 245 then
            (case r of b # c # d # _ \<Rightarrow>
               if cont_byte b \<and> cont_byte c \<and> cont_byte d
                  \<and> (byte a = 240 \<longrightarrow> 144 \<le> byte b)
                  \<and> (byte a = 244 \<longrightarrow> byte b < 144)
               then 4 else 0
             | _ \<Rightarrow> 0)
          else 0))"

definition utf8_encode :: "nat \<Rightarrow> string" where
  "utf8_encode n =
     (if n < 128 then [char_of n]
      else if n < 2048 then [char_of (192 + n div 64), char_of (128 + n mod 64)]
      else if n < 65536 then
        [char_of (224 + n div 4096), char_of (128 + (n div 64) mod 64), char_of (128 + n mod 64)]
      else
        [char_of (240 + n div 262144), char_of (128 + (n div 4096) mod 64),
         char_of (128 + (n div 64) mod 64), char_of (128 + n mod 64)])"

definition replacement_char :: string where
  "replacement_char = utf8_encode 65533"

subsection \<open>Syntax trees and tokens\<close>

datatype json =
    JNull
  | JBool bool
  | JNum string
  | JStr string
  | JArr "json list"
  | JObj "(string \<times> json) list"

datatype token =
    TLBrace | TRBrace | TLBrack | TRBrack | TColon | TComma
  | TString string | TNumber string | TTrue | TFalse | TNull

definition is_ws :: "char \<Rightarrow> bool" where
  "is_ws c = (c = CHR '' '' \<or> byte c = 9 \<or> byte c = 10 \<or> byte c = 13)"

definition is_digit :: "char \<Rightarrow> bool" where
  "is_digit c = (48 \<le> byte c \<and> byte c < 58)"

definition hex_val :: "char \<Rightarrow> nat option" where
  "hex_val c =
     (if 48 \<le> byte c \<and> byte c < 58 then Some (byte c - 48)
      else if 97 \<le> byte c \<and> byte c < 103 then Some (byte c - 87)
      else if 65 \<le> byte c \<and> byte c < 71 then Some (byte c - 55)
      else None)"

text \<open>\<open>getu4\<close>: the code unit of an escape \<open>\uXXXX\<close> at the head of a string.\<close>

definition getu4 :: "string \<Rightarrow> nat option" where
  "getu4 s =
     (case s of
        bs # u # a # b # c # d # _ \<Rightarrow>
          (if byte bs = 92 \<and> u = CHR ''u'' then
             (case (hex_val a, hex_val b, hex_val c, hex_val d) of
                (Some x, Some y, Some z, Some w) \<Rightarrow> Some (((x * 16 + y) * 16 + z) * 16 + w)
              | _ \<Rightarrow> None)
           else None)
      | _ \<Rightarrow> None)"

definition simple_escape :: "char \<Rightarrow> char option" where
  "simple_escape e =
     (if e = CHR ''\"'' then Some e
      else if byte e = 92 then Some e
      else if e = CHR ''/'' then Some e
      else if e = CHR ''b'' then Some (char_of (8::nat))
      else if e = CHR ''f'' then Some (char_of (12::nat))
      else if e = CHR ''n'' then Some (char_of (10::nat))
      else if e = CHR ''r'' then Some (char_of (13::nat))
      else if e = CHR ''t'' then Some (char_of (9::nat))
      else None)"

text \<open>
  The body of a string literal, after its opening quote: the decoded bytes (collected in
  reverse) and the text after the closing quote. The first argument counts bytes still to
  be passed over: the rest of an escape or of a UTF-8 sequence already examined. Bytes
  that are not UTF-8 decode to the replacement character, as does an unpaired surrogate.
\<close>

fun lex_str :: "nat \<Rightarrow> bool \<Rightarrow> string \<Rightarrow> string \<Rightarrow> error + (string \<times> string)" where
  "lex_str skip keep acc [] = Inl ''unexpected end of JSON input''"
| "lex_str (Suc k) keep acc (c # cs) = lex_str k keep (if keep then c # acc else acc) cs"
| "lex_str 0 keep acc (c # cs) =
     (if c = CHR ''\"'' then Inr (rev acc, cs)
      else if byte c = 92 then
        (case cs of
           [] \<Rightarrow> Inl ''unexpected end of JSON input''
         | e # _ \<Rightarrow>
            (if e = CHR ''u'' then
               (case getu4 (c # cs) of
                  None \<Rightarrow> Inl ''invalid character in hexadecimal character escape''
                | Some u1 \<Rightarrow>
                   (if 55296 \<le> u1 \<and> u1 < 57344 then
                      (case getu4 (drop 5 cs) of
                         Some u2 \<Rightarrow>
                           (if u1 < 56320 \<and> 56320 \<le> u2 \<and> u2 < 57344 then
                              lex_str 11 False
                                (rev (utf8_encode (65536 + (u1 - 55296) * 1024 + (u2 - 56320))) @ acc) cs
                            else lex_str 5 False (rev replacement_char @ acc) cs)
                       | None \<Rightarrow> lex_str 5 False (rev replacement_char @ acc) cs)
                    else lex_str 5 False (rev (utf8_encode u1) @ acc) cs))
             else
               (case simple_escape e of
                  None \<Rightarrow> Inl ''invalid character in string escape code''
                | Some d \<Rightarrow> lex_str 1 False (d # acc) cs)))
      else if byte c < 32 then Inl ''invalid character in string literal''
      else if byte c < 128 then lex_str 0 True (c # acc) cs
      else
        (case utf8_len (c # cs) of
           0 \<Rightarrow> lex_str 0 True (rev replacement_char @ acc) cs
         | Suc n \<Rightarrow> lex_str n True (c # acc) cs))"

definition num_char :: "char \<Rightarrow> bool" where
  "num_char c = (is_digit c \<or> c = CHR ''-'' \<or> c = CHR ''+'' \<or> c = CHR ''.''
                 \<or> c = CHR ''e'' \<or> c = CHR ''E'')"

text \<open>The grammar of a number: \<open>-? (0 | [1-9][0-9]*) (. [0-9]+)? ([eE] [+-]? [0-9]+)?\<close>.\<close>

definition digits1 :: "string \<Rightarrow> bool" where
  "digits1 s = (s \<noteq> [] \<and> list_all is_digit s)"

definition valid_exp :: "string \<Rightarrow> bool" where
  "valid_exp s =
     (case s of
        [] \<Rightarrow> True
      | e # r \<Rightarrow> (e = CHR ''e'' \<or> e = CHR ''E'')
                 \<and> (case r of [] \<Rightarrow> False
                     | g # r' \<Rightarrow> if g = CHR ''+'' \<or> g = CHR ''-'' then digits1 r' else digits1 r))"

definition valid_frac_exp :: "string \<Rightarrow> bool" where
  "valid_frac_exp s =
     (case s of
        [] \<Rightarrow> True
      | d # r \<Rightarrow> if d = CHR ''.'' then digits1 (takeWhile is_digit r) \<and> valid_exp (dropWhile is_digit r)
                 else valid_exp s)"

definition valid_number :: "string \<Rightarrow> bool" where
  "valid_number s =
     (let u = (case s of [] \<Rightarrow> [] | c # r \<Rightarrow> if c = CHR ''-'' then r else s) in
      case u of
        [] \<Rightarrow> False
      | d # r \<Rightarrow> if d = CHR ''0'' then valid_frac_exp r
                 else is_digit d \<and> valid_frac_exp (dropWhile is_digit r))"

text \<open>The next token of a text, with the text after it; \<open>None\<close> at the end of the text.\<close>

fun next_token :: "string \<Rightarrow> (error + (token \<times> string)) option" where
  "next_token [] = None"
| "next_token (c # cs) =
     (if is_ws c then next_token cs
      else Some
        (if c = CHR ''{'' then Inr (TLBrace, cs)
         else if c = CHR ''}'' then Inr (TRBrace, cs)
         else if c = CHR ''['' then Inr (TLBrack, cs)
         else if c = CHR '']'' then Inr (TRBrack, cs)
         else if c = CHR '':'' then Inr (TColon, cs)
         else if c = CHR '','' then Inr (TComma, cs)
         else if c = CHR ''\"'' then
           (case lex_str 0 True [] cs of
              Inl e \<Rightarrow> Inl e
            | Inr (s, rest) \<Rightarrow> Inr (TString s, rest))
         else if c = CHR ''-'' \<or> is_digit c then
           (if valid_number (takeWhile num_char (c # cs))
            then Inr (TNumber (takeWhile num_char (c # cs)), dropWhile num_char (c # cs))
            else Inl ''invalid character in numeric literal'')
         else if prefix ''true'' (c # cs) then Inr (TTrue, drop 4 (c # cs))
         else if prefix ''false'' (c # cs) then Inr (TFalse, drop 5 (c # cs))
         else if prefix ''null'' (c # cs) then Inr (TNull, drop 4 (c # cs))
         else Inl ''invalid character looking for beginning of value''))"

subsection \<open>The parser\<close>

text \<open>
  The parser reads tokens into a stack of open arrays and objects, as the library's
  scanner does. An open object remembers the key whose value is being read.
\<close>

datatype frame = FArr "json list" | FObj "(string \<times> json) list" "string option"

datatype expect =
    ExpValue | ExpValueOrEnd | ExpKeyOrEnd | ExpKey | ExpColon | ExpCommaOrEnd | ExpDone

record pstate =
  stack :: "frame list"
  expecting :: expect
  parsed :: "json option"

definition pinit :: pstate where
  "pinit = \<lparr>stack = [], expecting = ExpValue, parsed = None\<rparr>"

definition push_value :: "json \<Rightarrow> frame list \<Rightarrow> error + pstate" where
  "push_value v st =
     (case st of
        [] \<Rightarrow> Inr \<lparr>stack = [], expecting = ExpDone, parsed = Some v\<rparr>
      | FArr es # fs \<Rightarrow> Inr \<lparr>stack = FArr (v # es) # fs, expecting = ExpCommaOrEnd, parsed = None\<rparr>
      | FObj kvs (Some k) # fs \<Rightarrow>
          Inr \<lparr>stack = FObj ((k, v) # kvs) None # fs, expecting = ExpCommaOrEnd, parsed = None\<rparr>
      | FObj kvs None # fs \<Rightarrow> Inl ''invalid character looking for beginning of object key string'')"

definition close_array :: "frame list \<Rightarrow> error + pstate" where
  "close_array st =
     (case st of
        FArr es # fs \<Rightarrow> push_value (JArr (rev es)) fs
      | _ \<Rightarrow> Inl ''invalid character ] looking for beginning of value'')"

definition close_object :: "frame list \<Rightarrow> error + pstate" where
  "close_object st =
     (case st of
        FObj kvs None # fs \<Rightarrow> push_value (JObj (rev kvs)) fs
      | _ \<Rightarrow> Inl ''invalid character } looking for beginning of value'')"

definition start_value :: "token \<Rightarrow> frame list \<Rightarrow> error + pstate" where
  "start_value t st =
     (case t of
        TLBrack \<Rightarrow> Inr \<lparr>stack = FArr [] # st, expecting = ExpValueOrEnd, parsed = None\<rparr>
      | TLBrace \<Rightarrow> Inr \<lparr>stack = FObj [] None # st, expecting = ExpKeyOrEnd, parsed = None\<rparr>
      | TString s \<Rightarrow> push_value (JStr s) st
      | TNumber n \<Rightarrow> push_value (JNum n) st
      | TTrue \<Rightarrow> push_value (JBool True) st
      | TFalse \<Rightarrow> push_value (JBool False) st
      | TNull \<Rightarrow> push_value JNull st
      | _ \<Rightarrow> Inl ''invalid character looking for beginning of value'')"

definition set_key :: "string \<Rightarrow> frame list \<Rightarrow> error + pstate" where
  "set_key k st =
     (case st of
        FObj kvs None # fs \<Rightarrow> Inr \<lparr>stack = FObj kvs (Some k) # fs, expecting = ExpColon, parsed = None\<rparr>
      | _ \<Rightarrow> Inl ''invalid character looking for beginning of object key string'')"

definition pstep :: "pstate \<Rightarrow> token \<Rightarrow> error + pstate" where
  "pstep p t =
     (case expecting p of
        ExpValue \<Rightarrow> start_value t (stack p)
      | ExpValueOrEnd \<Rightarrow> (if t = TRBrack then close_array (stack p) else start_value t (stack p))
      | ExpKeyOrEnd \<Rightarrow>
          (case t of TString k \<Rightarrow> set_key k (stack p)
           | TRBrace \<Rightarrow> close_object (stack p)
           | _ \<Rightarrow> Inl ''invalid character looking for beginning of object key string'')
      | ExpKey \<Rightarrow>
          (case t of TString k \<Rightarrow> set_key k (stack p)
           | _ \<Rightarrow> Inl ''invalid character looking for beginning of object key string'')
      | ExpColon \<Rightarrow>
          (if t = TColon then Inr (p\<lparr>expecting := ExpValue\<rparr>)
           else Inl ''invalid character after object key'')
      | ExpCommaOrEnd \<Rightarrow>
          (case stack p of
             FArr es # fs \<Rightarrow>
               (if t = TComma then Inr (p\<lparr>expecting := ExpValue\<rparr>)
                else if t = TRBrack then close_array (stack p)
                else Inl ''invalid character after array element'')
           | FObj kvs k # fs \<Rightarrow>
               (if t = TComma then Inr (p\<lparr>expecting := ExpKey\<rparr>)
                else if t = TRBrace then close_object (stack p)
                else Inl ''invalid character after object key:value pair'')
           | [] \<Rightarrow> Inl ''invalid character after top-level value'')
      | ExpDone \<Rightarrow> Inl ''invalid character after top-level value'')"

text \<open>A token's text is taken off the front of the input, so the rest is shorter.\<close>

lemma lex_str_unfold:
  assumes "lex_str 0 keep acc (c # cs) = Inr (s, rest)"
  shows "rest = cs \<or> (\<exists>n b a. lex_str n b a cs = Inr (s, rest))"
  using assms
  apply (subst (asm) lex_str.simps(3))
  apply (simp split: if_splits list.splits option.splits nat.splits del: lex_str.simps)
         apply blast+
  done

lemma lex_str_shorter:
  "lex_str k keep acc cs = Inr (s, rest) \<Longrightarrow> length rest < length cs"
proof (induction cs arbitrary: k keep acc)
  case Nil
  then show ?case by simp
next
  case (Cons c cs)
  show ?case
  proof (cases k)
    case (Suc k')
    with Cons.prems have "lex_str k' keep (if keep then c # acc else acc) cs = Inr (s, rest)"
      by simp
    from Cons.IH [OF this] show ?thesis by simp
  next
    case 0
    with Cons.prems have "rest = cs \<or> (\<exists>n b a. lex_str n b a cs = Inr (s, rest))"
      using lex_str_unfold by blast
    then show ?thesis
    proof
      assume "rest = cs"
      then show ?thesis by simp
    next
      assume "\<exists>n b a. lex_str n b a cs = Inr (s, rest)"
      then obtain n b a where "lex_str n b a cs = Inr (s, rest)" by blast
      from Cons.IH [OF this] show ?thesis by simp
    qed
  qed
qed

lemma next_token_unfold:
  assumes "next_token (c # cs) = Some (Inr (t, rest))" and "\<not> is_ws c"
  shows "rest = cs \<or> (\<exists>s. lex_str 0 True [] cs = Inr (s, rest))
         \<or> (rest = dropWhile num_char (c # cs) \<and> num_char c)
         \<or> rest = drop 4 (c # cs) \<or> rest = drop 5 (c # cs)"
  using assms
  apply (subst (asm) next_token.simps(2))
  apply (simp split: if_splits sum.splits prod.splits del: dropWhile.simps drop_Suc_Cons)
     apply (auto simp: num_char_def simp del: dropWhile.simps drop_Suc_Cons)
  done

lemma next_token_shorter:
  "next_token cs = Some (Inr (t, rest)) \<Longrightarrow> length rest < length cs"
proof (induction cs)
  case Nil
  then show ?case by simp
next
  case (Cons c cs)
  show ?case
  proof (cases "is_ws c")
    case True
    with Cons.prems have "next_token cs = Some (Inr (t, rest))" by simp
    from Cons.IH [OF this] show ?thesis by simp
  next
    case False
    from next_token_unfold [OF Cons.prems False]
    consider "rest = cs" | s where "lex_str 0 True [] cs = Inr (s, rest)"
      | "rest = dropWhile num_char (c # cs)" "num_char c"
      | "rest = drop 4 (c # cs)" | "rest = drop 5 (c # cs)"
      by blast
    then show ?thesis
    proof cases
      case 1
      then show ?thesis by simp
    next
      case 2
      from lex_str_shorter [OF this] show ?thesis by simp
    next
      case 3
      then show ?thesis using length_dropWhile_le [of num_char cs] by simp
    next
      case 4
      then show ?thesis by simp
    next
      case 5
      then show ?thesis by simp
    qed
  qed
qed

function parse_tokens :: "pstate \<Rightarrow> string \<Rightarrow> error + (json \<times> string)" where
  "parse_tokens p cs =
     (case parsed p of
        Some v \<Rightarrow> Inr (v, cs)
      | None \<Rightarrow>
         (case next_token cs of
            None \<Rightarrow> Inl ''unexpected end of JSON input''
          | Some (Inl e) \<Rightarrow> Inl e
          | Some (Inr (t, rest)) \<Rightarrow>
             (case pstep p t of
                Inl e \<Rightarrow> Inl e
              | Inr p' \<Rightarrow> parse_tokens p' rest)))"
  by pat_completeness auto
termination
  by (relation "measure (\<lambda>(p, cs). length cs)") (auto dest: next_token_shorter)

text \<open>
  \<open>Decoder.Decode\<close> reads the first value of a stream and leaves the rest unread;
  \<open>Unmarshal\<close> accepts a text that holds one value and white space only.
\<close>

definition decode_first :: "string \<Rightarrow> error + (json \<times> string)" where
  "decode_first cs = parse_tokens pinit cs"

definition parse_json :: "string \<Rightarrow> error + json" where
  "parse_json cs =
     (case decode_first cs of
        Inl e \<Rightarrow> Inl e
      | Inr (v, rest) \<Rightarrow>
          if list_all is_ws rest then Inr v else Inl ''invalid character after top-level value'')"

subsection \<open>From syntax trees to values\<close>

text \<open>
  Decoding into \<open>interface{}\<close>: a number becomes a \<open>float64\<close> (an error when
  \<open>strconv.ParseFloat\<close> rejects it), an object a map in which a repeated key keeps its
  last value.
\<close>

fun put_entry :: "string \<Rightarrow> 'a \<Rightarrow> (string \<times> 'a) list \<Rightarrow> (string \<times> 'a) list" where
  "put_entry k v [] = [(k, v)]"
| "put_entry k v (e # es) = (if fst e = k then (k, v) # es else e # put_entry k v es)"

fun to_gvalue :: "strconv \<Rightarrow> json \<Rightarrow> error + gvalue"
  and to_gvalues :: "strconv \<Rightarrow> json list \<Rightarrow> error + gvalue list"
  and to_entries :: "strconv \<Rightarrow> (string \<times> json) list \<Rightarrow> (string \<times> gvalue) list
                      \<Rightarrow> error + (string \<times> gvalue) list" where
  "to_gvalue cv JNull = Inr GNil"
| "to_gvalue cv (JBool b) = Inr (GBool b)"
| "to_gvalue cv (JStr s) = Inr (GString s)"
| "to_gvalue cv (JNum n) =
     (case parseFloat cv n of
        None \<Rightarrow> Inl (''json: cannot unmarshal number '' @ n @ '' into Go value of type float64'')
      | Some r \<Rightarrow> Inr (GFloat64 r))"
| "to_gvalue cv (JArr vs) = (case to_gvalues cv vs of Inl e \<Rightarrow> Inl e | Inr gs \<Rightarrow> Inr (GArray gs))"
| "to_gvalue cv (JObj kvs) = (case to_entries cv kvs [] of Inl e \<Rightarrow> Inl e | Inr es \<Rightarrow> Inr (GObject es))"
| "to_gvalues cv [] = Inr []"
| "to_gvalues cv (v # vs) =
     (case to_gvalue cv v of
        Inl e \<Rightarrow> Inl e
      | Inr g \<Rightarrow> (case to_gvalues cv vs of Inl e \<Rightarrow> Inl e | Inr gs \<Rightarrow> Inr (g # gs)))"
| "to_entries cv [] acc = Inr acc"
| "to_entries cv (kv # kvs) acc =
     (case to_gvalue cv (snd kv) of
        Inl e \<Rightarrow> Inl e
      | Inr g \<Rightarrow> to_entries cv kvs (put_entry (fst kv) g acc))"

text \<open>\<open>json.Unmarshal\<close> into an \<open>interface{}\<close>.\<close>

definition Unmarshal :: "strconv \<Rightarrow> string \<Rightarrow> error + gvalue" where
  "Unmarshal cv cs = (case parse_json cs of Inl e \<Rightarrow> Inl e | Inr v \<Rightarrow> to_gvalue cv v)"

text \<open>The word the library uses for a JSON value in a type error.\<close>

fun json_kind :: "json \<Rightarrow> string" where
  "json_kind JNull = ''null''"
| "json_kind (JBool _) = ''bool''"
| "json_kind (JNum _) = ''number''"
| "json_kind (JStr _) = ''string''"
| "json_kind (JArr _) = ''array''"
| "json_kind (JObj _) = ''object''"

text \<open>
  Decoding a syntax tree into a map \<open>map[string]interface{}\<close>: an object fills the map,
  \<open>null\<close> leaves it as it is (\<open>nil\<close>, which behaves as the empty map for every lookup
  and is identified with it here), any other value is a type error.
\<close>

definition to_map :: "strconv \<Rightarrow> string \<Rightarrow> json \<Rightarrow> error + (string \<times> gvalue) list" where
  "to_map cv ty v =
     (case v of
        JObj kvs \<Rightarrow> to_entries cv kvs []
      | JNull \<Rightarrow> Inr []
      | _ \<Rightarrow> Inl (''json: cannot unmarshal '' @ json_kind v @ '' into Go value of type '' @ ty))"

definition Unmarshal_map :: "strconv \<Rightarrow> string \<Rightarrow> string \<Rightarrow> error + (string \<times> gvalue) list" where
  "Unmarshal_map cv ty cs = (case parse_json cs of Inl e \<Rightarrow> Inl e | Inr v \<Rightarrow> to_map cv ty v)"

subsection \<open>Encoding\<close>

definition backslash :: char where
  "backslash = char_of (92::nat)"

definition newline :: string where
  "newline = [char_of (10::nat)]"

definition hex_digit :: "nat \<Rightarrow> char" where
  "hex_digit d = (if d < 10 then char_of (48 + d) else char_of (87 + d))"

text \<open>
  The encoder's string escaping, with HTML escaping on (the default of an \<open>Encoder\<close>):
  quote and backslash are escaped, control characters and \<open><\<close>, \<open>>\<close>, \<open>&\<close> become
  \<open>\u00XX\<close>, the line separators U+2028 and U+2029 become escapes, and bytes that are
  not UTF-8 become the escape of U+FFFD.
\<close>

definition esc_ascii :: "char \<Rightarrow> string" where
  "esc_ascii c =
     (if c = CHR ''\"'' \<or> c = backslash then [backslash, c]
      else if byte c = 8 then [backslash, CHR ''b'']
      else if byte c = 12 then [backslash, CHR ''f'']
      else if byte c = 10 then [backslash, CHR ''n'']
      else if byte c = 13 then [backslash, CHR ''r'']
      else if byte c = 9 then [backslash, CHR ''t'']
      else if byte c < 32 \<or> c = CHR ''<'' \<or> c = CHR ''>'' \<or> c = CHR ''&'' then
        [backslash, CHR ''u'', CHR ''0'', CHR ''0'', hex_digit (byte c div 16), hex_digit (byte c mod 16)]
      else [c])"

fun esc_bytes :: "nat \<Rightarrow> bool \<Rightarrow> string \<Rightarrow> string" where
  "esc_bytes skip keep [] = []"
| "esc_bytes (Suc k) keep (c # cs) = (if keep then c # esc_bytes k keep cs else esc_bytes k keep cs)"
| "esc_bytes 0 keep (c # cs) =
     (if byte c < 128 then esc_ascii c @ esc_bytes 0 True cs
      else
        (case utf8_len (c # cs) of
           0 \<Rightarrow> backslash # ''ufffd'' @ esc_bytes 0 True cs
         | Suc n \<Rightarrow>
            (if prefix (utf8_encode 8232) (c # cs) then backslash # ''u2028'' @ esc_bytes n False cs
             else if prefix (utf8_encode 8233) (c # cs) then backslash # ''u2029'' @ esc_bytes n False cs
             else c # esc_bytes n True cs)))"

definition quote :: "string \<Rightarrow> string" where
  "quote s = CHR ''\"'' # esc_bytes 0 True s @ [CHR ''\"'']"

definition indent :: "bool \<Rightarrow> nat \<Rightarrow> string" where
  "indent pretty d = (if pretty then newline @ replicate (2 * d) CHR '' '' else [])"

definition colon :: "bool \<Rightarrow> string" where
  "colon pretty = (if pretty then '': '' else '':'')"

text \<open>
  A value as the encoder writes it. Compact (\<open>json.Marshal\<close>): no white space at all.
  Pretty (\<open>Encoder.Encode\<close> after \<open>SetIndent("", "  ")\<close>): every member of a non-empty
  object or array on a line of its own, indented by two spaces per level of nesting.
  Either way the keys of an object come in byte order, and empty containers are \<open>{}\<close>
  and \<open>[]\<close>.
\<close>

fun enc :: "strconv \<Rightarrow> bool \<Rightarrow> nat \<Rightarrow> gvalue \<Rightarrow> error + string"
  and enc_elems :: "strconv \<Rightarrow> bool \<Rightarrow> nat \<Rightarrow> gvalue list \<Rightarrow> error + string list"
  and enc_entries :: "strconv \<Rightarrow> bool \<Rightarrow> nat \<Rightarrow> (string \<times> gvalue) list
                       \<Rightarrow> error + (string \<times> string) list" where
  "enc cv pr d GNil = Inr ''null''"
| "enc cv pr d (GBool b) = Inr (if b then ''true'' else ''false'')"
| "enc cv pr d (GString s) = Inr (quote s)"
| "enc cv pr d (GFloat64 r) = formatJSON cv r"
| "enc cv pr d (GFloat32 r) = formatJSON cv r"
| "enc cv pr d (GInt i) = Inr (show_int i)"
| "enc cv pr d (GInt32 i) = Inr (show_int i)"
| "enc cv pr d (GInt64 i) = Inr (show_int i)"
| "enc cv pr d (GArray vs) =
     (if vs = [] then Inr ''[]''
      else case enc_elems cv pr (Suc d) vs of
             Inl e \<Rightarrow> Inl e
           | Inr ss \<Rightarrow>
               Inr (''['' @ indent pr (Suc d) @ Join ss ('','' @ indent pr (Suc d)) @ indent pr d @ '']''))"
| "enc cv pr d (GObject es) =
     (if es = [] then Inr ''{}''
      else case enc_entries cv pr (Suc d) es of
             Inl e \<Rightarrow> Inl e
           | Inr kss \<Rightarrow>
               Inr (''{'' @ indent pr (Suc d)
                    @ Join (map (\<lambda>(k, s). quote k @ colon pr @ s) (sort_entries kss))
                        ('','' @ indent pr (Suc d))
                    @ indent pr d @ ''}''))"
| "enc_elems cv pr d [] = Inr []"
| "enc_elems cv pr d (v # vs) =
     (case enc cv pr d v of
        Inl e \<Rightarrow> Inl e
      | Inr s \<Rightarrow> (case enc_elems cv pr d vs of Inl e \<Rightarrow> Inl e | Inr ss \<Rightarrow> Inr (s # ss)))"
| "enc_entries cv pr d [] = Inr []"
| "enc_entries cv pr d (kv # kvs) =
     (case enc cv pr d (snd kv) of
        Inl e \<Rightarrow> Inl e
      | Inr s \<Rightarrow> (case enc_entries cv pr d kvs of Inl e \<Rightarrow> Inl e | Inr ss \<Rightarrow> Inr ((fst kv, s) # ss)))"

text \<open>\<open>Encoder.Encode\<close> of a record: the indented object and a newline.\<close>

definition Encode :: "strconv \<Rightarrow> Record \<Rightarrow> error + string" where
  "Encode cv rec = (case enc cv True 0 (GObject rec) of Inl e \<Rightarrow> Inl e | Inr s \<Rightarrow> Inr (s @ newline))"

text \<open>\<open>json.Marshal\<close>.\<close>

definition Marshal :: "strconv \<Rightarrow> gvalue \<Rightarrow> error + string" where
  "Marshal cv v = enc cv False 0 v"

section \<open>The JSON source: reading and writing files\<close>

text \<open>
  The operating system is a parameter: what \<open>os.Stat\<close>, \<open>filepath.Glob\<close>, \<open>os.Open\<close>
  (with the file's bytes), \<open>os.MkdirAll\<close> and \<open>os.Create\<close> answer for a path, and the pure
  path functions of \<open>path/filepath\<close>. \<open>stat\<close> answers whether the path is a directory.
\<close>

record opsys =
  stat :: "string \<Rightarrow> error + bool"
  glob :: "string \<Rightarrow> error + string list"
  open_file :: "string \<Rightarrow> error + string"
  mkdirAll :: "string \<Rightarrow> error option"
  create :: "string \<Rightarrow> error option"
  isAbs :: "string \<Rightarrow> bool"
  base :: "string \<Rightarrow> string"
  dir :: "string \<Rightarrow> string"

text \<open>
  A context, as the loops see it: the answer of the \<open>k\<close>-th poll of \<open>ctx.Done()\<close> within
  a call, \<open>None\<close> while the context is live and \<open>ctx.Err()\<close> once it is done.
\<close>

type_synonym Context = "nat \<Rightarrow> error option"

definition background :: Context where
  "background = (\<lambda>k. None)"

definition containsAny :: "string \<Rightarrow> string \<Rightarrow> bool" where
  "containsAny s chars = list_ex (\<lambda>ch. list_ex (\<lambda>c. c = ch) s) chars"

definition containsWildcard :: "opsys \<Rightarrow> string \<Rightarrow> bool" where
  "containsWildcard os p = (base os p \<noteq> p \<or> dir os p = ''.'' \<or> containsAny p ''*?['')"

definition findFiles :: "opsys \<Rightarrow> JSONSource \<Rightarrow> error + string list" where
  "findFiles os j =
     (if isAbs os (path j) \<and> \<not> containsWildcard os (path j) then
        (case stat os (path j) of Inl e \<Rightarrow> Inl e | Inr d \<Rightarrow> Inr [path j])
      else
        (case glob os (path j) of
           Inl e \<Rightarrow> Inl e
         | Inr matches \<Rightarrow>
             Inr (filter (\<lambda>m. case stat os m of Inl e \<Rightarrow> False | Inr d \<Rightarrow> \<not> d) matches)))"

text \<open>\<open>readJSONArray\<close>: the loop over the raw elements of the decoded array.\<close>

fun read_elements :: "strconv \<Rightarrow> JSONSource \<Rightarrow> nat \<Rightarrow> json list \<Rightarrow> error + Record list" where
  "read_elements cv j i [] = Inr []"
| "read_elements cv j i (raw # raws) =
     (case to_map cv ''sources.Record'' raw of
        Inl e \<Rightarrow> Inl (''failed to unmarshal record '' @ show_nat i @ '': '' @ e)
      | Inr rec \<Rightarrow>
         (case validateRecord j rec of
            Some e \<Rightarrow> Inl (''record '' @ show_nat i @ '' validation failed: '' @ e)
          | None \<Rightarrow>
             (case read_elements cv j (Suc i) raws of
                Inl e \<Rightarrow> Inl e
              | Inr recs \<Rightarrow> Inr (rec # recs))))"

definition readJSONArray :: "strconv \<Rightarrow> JSONSource \<Rightarrow> string \<Rightarrow> error + Record list" where
  "readJSONArray cv j reader =
     (case decode_first reader of
        Inl e \<Rightarrow> Inl (''failed to decode JSON array: '' @ e)
      | Inr (v, rest) \<Rightarrow>
         (case v of
            JArr raws \<Rightarrow> read_elements cv j 0 raws
          | JNull \<Rightarrow> Inr []
          | _ \<Rightarrow> Inl (''failed to decode JSON array: json: cannot unmarshal '' @ json_kind v
                      @ '' into Go value of type []json.RawMessage'')))"

text \<open>
  \<open>bufio.Scanner\<close> with its default split function: the lines of a text, without their
  terminators; a last line without terminator counts when it is not empty. A trailing
  carriage return is dropped from each line. A line of more than 65535 bytes stops the
  scanner with an error.
\<close>

fun scan_lines :: "string \<Rightarrow> string \<Rightarrow> string list" where
  "scan_lines cur [] = (if cur = [] then [] else [rev cur])"
| "scan_lines cur (c # cs) =
     (if byte c = 10 then rev cur # scan_lines [] cs else scan_lines (c # cur) cs)"

definition dropCR :: "string \<Rightarrow> string" where
  "dropCR l = (if l \<noteq> [] \<and> byte (last l) = 13 then butlast l else l)"

text \<open>\<open>readJSONLines\<close>: the loop over the scanned lines; \<open>n\<close> is \<open>lineNum\<close>.\<close>

fun read_lines :: "strconv \<Rightarrow> JSONSource \<Rightarrow> nat \<Rightarrow> string list \<Rightarrow> error + Record list" where
  "read_lines cv j n [] = Inr []"
| "read_lines cv j n (raw # ls) =
     (if 65535 < length raw then Inl ''error reading file: bufio.Scanner: token too long''
      else if dropCR raw = [] then read_lines cv j (Suc n) ls
      else
        (case Unmarshal_map cv ''sources.Record'' (dropCR raw) of
           Inl e \<Rightarrow> Inl (''failed to unmarshal line '' @ show_nat (Suc n) @ '': '' @ e)
         | Inr rec \<Rightarrow>
            (case validateRecord j rec of
               Some e \<Rightarrow> Inl (''line '' @ show_nat (Suc n) @ '' validation failed: '' @ e)
             | None \<Rightarrow>
                (case read_lines cv j (Suc n) ls of
                   Inl e \<Rightarrow> Inl e
                 | Inr recs \<Rightarrow> Inr (rec # recs)))))"

definition readJSONLines :: "strconv \<Rightarrow> JSONSource \<Rightarrow> string \<Rightarrow> error + Record list" where
  "readJSONLines cv j reader = read_lines cv j 0 (scan_lines [] reader)"

definition readFile :: "strconv \<Rightarrow> opsys \<Rightarrow> JSONSource \<Rightarrow> string \<Rightarrow> error + Record list" where
  "readFile cv os j p =
     (case open_file os p of
        Inl e \<Rightarrow> Inl e
      | Inr bytes \<Rightarrow> if mode j = ''array'' then readJSONArray cv j bytes else readJSONLines cv j bytes)"

text \<open>
  \<open>Read\<close> returns a slice and an error, both of which are meaningful when the context is
  done: then the records gathered so far come with \<open>ctx.Err()\<close>.
\<close>

fun read_files :: "strconv \<Rightarrow> opsys \<Rightarrow> Context \<Rightarrow> JSONSource \<Rightarrow> nat \<Rightarrow> Record list \<Rightarrow> string list
                     \<Rightarrow> Record list \<times> error option" where
  "read_files cv os ctx j k allRecords [] = (allRecords, None)"
| "read_files cv os ctx j k allRecords (file # files) =
     (case ctx k of
        Some e \<Rightarrow> (allRecords, Some e)
      | None \<Rightarrow>
         (case readFile cv os j file of
            Inl e \<Rightarrow> ([], Some (''failed to read file '' @ file @ '': '' @ e))
          | Inr records \<Rightarrow> read_files cv os ctx j (Suc k) (allRecords @ records) files))"

definition Read :: "strconv \<Rightarrow> opsys \<Rightarrow> JSONSource \<Rightarrow> Context \<Rightarrow> Record list \<times> error option" where
  "Read cv os j ctx =
     (case findFiles os j of
        Inl e \<Rightarrow> ([], Some (''failed to find files: '' @ e))
      | Inr files \<Rightarrow>
          if length files = 0 then ([], Some (''no files found matching pattern: '' @ path j))
          else read_files cv os ctx j 0 [] files)"

text \<open>A write through a file handle.\<close>

definition fwrite :: "JSONSource \<Rightarrow> string \<Rightarrow> error + JSONSource" where
  "fwrite j bytes =
     (case writer j of
        None \<Rightarrow> Inl ''invalid argument''
      | Some f \<Rightarrow>
          if closed f then Inl (''write '' @ path j @ '': file already closed'')
          else Inr (j\<lparr>writer := Some (f\<lparr>content := content f @ bytes\<rparr>)\<rparr>))"

text \<open>
  \<open>Write\<close>: the loop over the records of one call; \<open>i\<close> is the index within the call.
  The source is returned as the call leaves it, next to the error.
\<close>

fun write_records :: "strconv \<Rightarrow> Context \<Rightarrow> nat \<Rightarrow> JSONSource \<Rightarrow> Record list \<Rightarrow> error option \<times> JSONSource" where
  "write_records cv ctx i j [] = (None, j)"
| "write_records cv ctx i j (rec # recs) =
     (case ctx i of
        Some e \<Rightarrow> (Some e, j)
      | None \<Rightarrow>
         (case (if mode j = ''array'' \<and> i > 0 then fwrite j ('','' @ newline) else Inr j) of
            Inl e \<Rightarrow> (Some e, j)
          | Inr j1 \<Rightarrow>
             (case validateRecord j1 rec of
                Some e \<Rightarrow> (Some (''record validation failed: '' @ e), j1)
              | None \<Rightarrow>
                 (case Encode cv rec of
                    Inl e \<Rightarrow> (Some (''failed to encode record: '' @ e), j1)
                  | Inr bytes \<Rightarrow>
                     (case fwrite j1 bytes of
                        Inl e \<Rightarrow> (Some (''failed to encode record: '' @ e), j1)
                      | Inr j2 \<Rightarrow> write_records cv ctx (Suc i) j2 recs)))))"

definition Write :: "strconv \<Rightarrow> opsys \<Rightarrow> JSONSource \<Rightarrow> Context \<Rightarrow> Record list \<Rightarrow> error option \<times> JSONSource" where
  "Write cv os j ctx records =
     (if writer j = None then
        (case mkdirAll os (dir os (path j)) of
           Some e \<Rightarrow> (Some (''failed to create directory: '' @ e), j)
         | None \<Rightarrow>
            (case create os (path j) of
               Some e \<Rightarrow> (Some (''failed to create file: '' @ e), j)
             | None \<Rightarrow>
                (let j1 = j\<lparr>writer := Some \<lparr>content = [], closed = False\<rparr>, isWritable := True\<rparr> in
                 if mode j1 = ''array'' then
                   (case fwrite j1 (''['' @ newline) of
                      Inl e \<Rightarrow> (Some e, j1)
                    | Inr j2 \<Rightarrow> write_records cv ctx 0 j2 records)
                 else write_records cv ctx 0 j1 records)))
      else write_records cv ctx 0 j records)"

definition Close :: "JSONSource \<Rightarrow> error option \<times> JSONSource" where
  "Close j =
     (case writer j of
        None \<Rightarrow> (None, j)
      | Some f \<Rightarrow>
         (case (if mode j = ''array'' then fwrite j (newline @ '']'') else Inr j) of
            Inl e \<Rightarrow> (Some e, j)
          | Inr j1 \<Rightarrow>
             (case writer j1 of
                None \<Rightarrow> (None, j1)
              | Some f1 \<Rightarrow>
                  if closed f1 then (Some (''close '' @ path j @ '': file already closed''), j1)
                  else (None, j1\<lparr>writer := Some (f1\<lparr>closed := True\<rparr>)\<rparr>))))"

text \<open>The bytes of the output file, once the source has written to it.\<close>

definition file_bytes :: "JSONSource \<Rightarrow> string" where
  "file_bytes j = (case writer j of None \<Rightarrow> [] | Some f \<Rightarrow> content f)"

section \<open>The Gemini evaluator\<close>

text \<open>
  The evaluator's configuration. A \<open>nil\<close> parameter map is \<open>None\<close>. The HTTP client is
  part of the outside world below.
\<close>

record GeminiEvaluator =
  apiKey :: string
  model :: string
  params :: "(string \<times> gvalue) list option"

record Result =
  Input :: Record
  Output :: "(string \<times> gvalue) list option"
  Metadata :: "(string \<times> gvalue) list option"
  Error :: "error option"

text \<open>
  The outside world. An HTTP exchange either fails (building the request, or in
  transport, which includes a context that is done) or yields a status code and a body;
  what it does may depend on how many requests were made before, on the URL and on the
  body sent. The state of a run is the number of requests made so far and a trace: the
  loop of \<open>BatchEvaluate\<close> notes when it hands a record to \<open>Evaluate\<close> and when
  \<open>Evaluate\<close> returns, and \<open>makeAPICall\<close> notes each request.
\<close>

datatype http_result = RequestError error | TransportError error | Response nat string

type_synonym provider = "nat \<Rightarrow> string \<Rightarrow> string \<Rightarrow> http_result"

datatype event = Admitted nat | Requested string | Completed nat

record world =
  requests :: nat
  trace :: "event list"

definition logged :: "event \<Rightarrow> world \<Rightarrow> world" where
  "logged ev w = w\<lparr>trace := trace w @ [ev]\<rparr>"

text \<open>
  \<open>applyPromptTemplate\<close>: one \<open>ReplaceAll\<close> per entry of the record, in the order in which
  the \<open>range\<close> visits the entries (the order of the list).
\<close>

definition applyPromptTemplate :: "strconv \<Rightarrow> string \<Rightarrow> Record \<Rightarrow> string" where
  "applyPromptTemplate cv prompt rec =
     foldl (\<lambda>processedPrompt (key, v).
              ReplaceAll processedPrompt (''{{'' @ key @ ''}}'') (sprint_v cv v))
           prompt rec"

definition buildRequestBody :: "GeminiEvaluator \<Rightarrow> string \<Rightarrow> gvalue" where
  "buildRequestBody g prompt =
     (let requestBody =
            [(''contents'', GArray [GObject [(''parts'', GArray [GObject [(''text'', GString prompt)]])]])]
      in case params g of
           None \<Rightarrow> GObject requestBody
         | Some ps \<Rightarrow>
            (let c1 = (case map_of ps ''temperature'' of
                         Some temp \<Rightarrow> [(''temperature'', temp)] | None \<Rightarrow> []);
                 generationConfig =
                      (case map_of ps ''max_tokens'' of
                         Some maxTokens \<Rightarrow> put_entry ''maxOutputTokens'' maxTokens c1 | None \<Rightarrow> c1)
             in if length generationConfig > 0
                then GObject (put_entry ''generationConfig'' (GObject generationConfig) requestBody)
                else GObject requestBody))"

text \<open>Decoding a response body into a \<open>map[string]interface{}\<close> with a \<open>Decoder\<close>.\<close>

definition decode_map :: "strconv \<Rightarrow> string \<Rightarrow> error + (string \<times> gvalue) list" where
  "decode_map cv body =
     (case decode_first body of
        Inl e \<Rightarrow> Inl e
      | Inr (v, rest) \<Rightarrow> to_map cv ''map[string]interface {}'' v)"

definition makeAPICall ::
  "strconv \<Rightarrow> GeminiEvaluator \<Rightarrow> provider \<Rightarrow> gvalue \<Rightarrow> world
     \<Rightarrow> (error + (string \<times> gvalue) list) \<times> world" where
  "makeAPICall cv g http requestBody w =
     (let url = ''https://generativelanguage.googleapis.com/v1beta/models/'' @ model g
                @ '':generateContent?key='' @ apiKey g
      in case Marshal cv requestBody of
           Inl e \<Rightarrow> (Inl (''failed to marshal request body: '' @ e), w)
         | Inr jsonBody \<Rightarrow>
            (case http (requests w) url jsonBody of
               RequestError e \<Rightarrow> (Inl (''failed to create request: '' @ e), w)
             | TransportError e \<Rightarrow>
                 (Inl (''API request failed: '' @ e),
                  logged (Requested jsonBody) (w\<lparr>requests := Suc (requests w)\<rparr>))
             | Response status body \<Rightarrow>
                 (let w' = logged (Requested jsonBody) (w\<lparr>requests := Suc (requests w)\<rparr>) in
                  if status \<noteq> 200 then
                    (case decode_map cv body of
                       Inl e \<Rightarrow> (Inl (''API returned status '' @ show_nat status), w')
                     | Inr errorResponse \<Rightarrow>
                         (Inl (''API error: '' @ sprint_v cv (GObject errorResponse)), w'))
                  else
                    (case decode_map cv body of
                       Inl e \<Rightarrow> (Inl (''failed to decode response: '' @ e), w')
                     | Inr response \<Rightarrow> (Inr response, w')))))"

definition parseResponse ::
  "strconv \<Rightarrow> (string \<times> gvalue) list
     \<Rightarrow> error + ((string \<times> gvalue) list \<times> (string \<times> gvalue) list)" where
  "parseResponse cv response =
     (case map_of response ''candidates'' of
        Some (GArray (c0 # cands)) \<Rightarrow>
          (case c0 of
             GObject candidate \<Rightarrow>
               (case map_of candidate ''content'' of
                  Some (GObject contnt) \<Rightarrow>
                    (case map_of contnt ''parts'' of
                       Some (GArray (p0 # parts)) \<Rightarrow>
                         (case p0 of
                            GObject part \<Rightarrow>
                              (case map_of part ''text'' of
                                 Some (GString txt) \<Rightarrow>
                                   (let output0 = [(''response'', GString txt)];
                                        trimmedText = TrimSpace txt;
                                        output =
                                          (if prefix ''{'' trimmedText \<or> prefix ''['' trimmedText then
                                             (case Unmarshal cv trimmedText of
                                                Inr jsonOutput \<Rightarrow> put_entry ''parsed'' jsonOutput output0
                                              | Inl e \<Rightarrow> output0)
                                           else output0);
                                        m1 = (case map_of candidate ''safetyRatings'' of
                                                Some safetyRatings \<Rightarrow> [(''safetyRatings'', safetyRatings)]
                                              | None \<Rightarrow> []);
                                        m2 = (case map_of candidate ''finishReason'' of
                                                Some finishReason \<Rightarrow> put_entry ''finishReason'' finishReason m1
                                              | None \<Rightarrow> m1);
                                        metadata =
                                             (case map_of response ''usageMetadata'' of
                                                Some usageMetadata \<Rightarrow> put_entry ''usage'' usageMetadata m2
                                              | None \<Rightarrow> m2)
                                    in Inr (output, metadata))
                               | _ \<Rightarrow> Inl ''no text in part'')
                          | _ \<Rightarrow> Inl ''invalid part format'')
                     | _ \<Rightarrow> Inl ''no parts in content'')
                | _ \<Rightarrow> Inl ''no content in candidate'')
           | _ \<Rightarrow> Inl ''invalid candidate format'')
      | _ \<Rightarrow> Inl ''no candidates in response'')"

definition Evaluate ::
  "strconv \<Rightarrow> GeminiEvaluator \<Rightarrow> provider \<Rightarrow> Record \<Rightarrow> string \<Rightarrow> world
     \<Rightarrow> (Result \<times> error option) \<times> world" where
  "Evaluate cv g http rec prompt w =
     (let processedPrompt = applyPromptTemplate cv prompt rec;
          requestBody = buildRequestBody g processedPrompt
      in case makeAPICall cv g http requestBody w of
           (Inl err, w') \<Rightarrow>
             ((\<lparr>Input = rec, Output = None, Metadata = None, Error = Some err\<rparr>, Some err), w')
         | (Inr response, w') \<Rightarrow>
            (case parseResponse cv response of
               Inl err \<Rightarrow>
                 ((\<lparr>Input = rec, Output = None, Metadata = None, Error = Some err\<rparr>, Some err), w')
             | Inr (output, metadata) \<Rightarrow>
                 ((\<lparr>Input = rec, Output = Some output, Metadata = Some metadata, Error = None\<rparr>, None),
                  w')))"

text \<open>
  \<open>BatchEvaluate\<close>: a slice of \<open>len(records)\<close> zero results, then the loop, which stores
  the result of record \<open>i\<close> at index \<open>i\<close>. The error returned is always \<open>nil\<close>.
\<close>

definition zero_Result :: Result where
  "zero_Result = \<lparr>Input = [], Output = None, Metadata = None, Error = None\<rparr>"

fun batch_loop ::
  "strconv \<Rightarrow> GeminiEvaluator \<Rightarrow> provider \<Rightarrow> string \<Rightarrow> nat \<Rightarrow> Record list \<Rightarrow> Result list \<Rightarrow> world
     \<Rightarrow> Result list \<times> world" where
  "batch_loop cv g http prompt i [] results w = (results, w)"
| "batch_loop cv g http prompt i (rec # recs) results w =
     (case Evaluate cv g http rec prompt (logged (Admitted i) w) of
        ((result, Some err), w') \<Rightarrow>
          batch_loop cv g http prompt (Suc i) recs
            (results[i := \<lparr>Input = rec, Output = None, Metadata = None, Error = Some err\<rparr>])
            (logged (Completed i) w')
      | ((result, None), w') \<Rightarrow>
          batch_loop cv g http prompt (Suc i) recs (results[i := result]) (logged (Completed i) w'))"

definition BatchEvaluate ::
  "strconv \<Rightarrow> GeminiEvaluator \<Rightarrow> provider \<Rightarrow> Record list \<Rightarrow> string \<Rightarrow> world
     \<Rightarrow> (Result list \<times> error option) \<times> world" where
  "BatchEvaluate cv g http records prompt w =
     (case batch_loop cv g http prompt 0 records (replicate (length records) zero_Result) w of
        (results, w') \<Rightarrow> ((results, None), w'))"

text \<open>
  Reading a trace: the records admitted, in order; the admissions and completions alone;
  and the number of evaluations in flight at its end (admitted and not yet completed).
\<close>

fun admitted :: "event list \<Rightarrow> nat list" where
  "admitted [] = []"
| "admitted (Admitted i # evs) = i # admitted evs"
| "admitted (ev # evs) = admitted evs"

fun schedule :: "event list \<Rightarrow> event list" where
  "schedule [] = []"
| "schedule (Requested b # evs) = schedule evs"
| "schedule (ev # evs) = ev # schedule evs"

fun completed :: "event list \<Rightarrow> nat list" where
  "completed [] = []"
| "completed (Completed i # evs) = i # completed evs"
| "completed (ev # evs) = completed evs"

definition in_flight :: "event list \<Rightarrow> nat" where
  "in_flight evs = length (admitted evs) - length (completed evs)"

text \<open>
  What \<open>Evaluate\<close> returns for a record when \<open>n\<close> requests were made before: its result
  and error do not depend on the trace.
\<close>

definition outcome ::
  "strconv \<Rightarrow> GeminiEvaluator \<Rightarrow> provider \<Rightarrow> Record \<Rightarrow> string \<Rightarrow> nat \<Rightarrow> Result \<times> error option" where
  "outcome cv g http rec prompt n = fst (Evaluate cv g http rec prompt \<lparr>requests = n, trace = []\<rparr>)"

text \<open>
  Conversions for examples in which no floating-point number occurs: they are never
  consulted there, and reject or print nothing.
\<close>

definition no_numbers :: strconv where
  "no_numbers = \<lparr>formatG = (\<lambda>r. []), formatJSON = (\<lambda>r. Inl ''unsupported value''),
                 parseFloat = (\<lambda>s. None)\<rparr>"

section \<open>Example inputs\<close>

text \<open>
  An evaluator, a prompt, two records, and a provider that refuses the request made for
  the first record (whenever it is made) and answers every other request with a
  well-formed response.
\<close>

definition example_evaluator :: GeminiEvaluator where
  "example_evaluator = \<lparr>apiKey = ''key'', model = ''gemini-pro'', params = None\<rparr>"

definition example_prompt :: string where
  "example_prompt = ''Text: {{text}}''"

definition example_records :: "Record list" where
  "example_records = [[(''text'', GString ''bad'')], [(''text'', GString ''good'')]]"

definition example_response :: string where
  "example_response = ''{\"candidates\":[{\"content\":{\"parts\":[{\"text\":\"positive\"}]}}]}''"

definition example_provider :: provider where
  "example_provider n url body =
     (if body = ''{\"contents\":[{\"parts\":[{\"text\":\"Text: bad\"}]}]}''
      then TransportError ''connection refused''
      else Response 200 example_response)"

definition fresh_world :: world where
  "fresh_world = \<lparr>requests = 0, trace = []\<rparr>"

text \<open>
  A working directory in which the pattern of the source matches the given files, none
  of them a directory, each holding the given bytes; directories and files can be
  created. The paths used have no directory part.
\<close>

definition example_os :: "string list \<Rightarrow> string \<Rightarrow> opsys" where
  "example_os matches bytes =
     \<lparr>stat = (\<lambda>p. Inr False), glob = (\<lambda>p. Inr matches), open_file = (\<lambda>p. Inr bytes),
      mkdirAll = (\<lambda>p. None), create = (\<lambda>p. None),
      isAbs = (\<lambda>p. False), base = (\<lambda>p. p), dir = (\<lambda>p. ''.'')\<rparr>"

definition example_source :: "string \<Rightarrow> JSONSource" where
  "example_source m =
     \<lparr>path = ''out.json'', mode = m, schema = \<lparr>Fields = [\<lparr>Name = ''text'', Type = ''string''\<rparr>]\<rparr>,
      isWritable = False, writer = None\<rparr>"

text \<open>
  Two records, and the files that the source leaves behind after writing them and
  closing: one record in \<open>lines\<close> mode; both records in \<open>array\<close> mode by a single call
  of \<open>Write\<close>; both records in \<open>array\<close> mode by two calls of \<open>Write\<close>.
\<close>

definition record_hi :: Record where
  "record_hi = [(''text'', GString ''hi'')]"

definition record_ho :: Record where
  "record_ho = [(''text'', GString ''ho'')]"

definition lines_file :: string where
  "lines_file =
     file_bytes (snd (Close (snd (Write no_numbers (example_os [] []) (example_source ''lines'')
                                    background [record_hi]))))"

definition array_file_one_call :: string where
  "array_file_one_call =
     file_bytes (snd (Close (snd (Write no_numbers (example_os [] []) (example_source ''array'')
                                    background [record_hi, record_ho]))))"

definition array_file_two_calls :: string where
  "array_file_two_calls =
     file_bytes (snd (Close (snd (Write no_numbers (example_os [] [])
                                    (snd (Write no_numbers (example_os [] []) (example_source ''array'')
                                            background [record_hi]))
                                    background [record_ho]))))"

section \<open>Templates as the specification sees them\<close>

text \<open>
  The specification speaks of a template as text with placeholders \<open>{{fieldName}}\<close>, each
  of which is either replaced by the text of the record's value or left verbatim. A
  template is then a sequence of pieces; it is plain when neither its literal text nor
  its placeholder names contain a brace, and a record is plain when neither its field
  names nor the texts of its values do.
\<close>

datatype piece = Lit string | Hole string

fun piece_text :: "piece \<Rightarrow> string" where
  "piece_text (Lit s) = s"
| "piece_text (Hole n) = ''{{'' @ n @ ''}}''"

definition template_text :: "piece list \<Rightarrow> string" where
  "template_text ps = concat (map piece_text ps)"

definition brace_free :: "string \<Rightarrow> bool" where
  "brace_free s = list_all (\<lambda>c. c \<noteq> CHR ''{'' \<and> c \<noteq> CHR ''}'') s"

fun plain_piece :: "piece \<Rightarrow> bool" where
  "plain_piece (Lit s) = brace_free s"
| "plain_piece (Hole n) = brace_free n"

definition plain_template :: "piece list \<Rightarrow> bool" where
  "plain_template ps = list_all plain_piece ps"

definition plain_record :: "strconv \<Rightarrow> Record \<Rightarrow> bool" where
  "plain_record cv rec = list_all (\<lambda>(k, v). brace_free k \<and> brace_free (sprint_v cv v)) rec"

fun filled :: "strconv \<Rightarrow> Record \<Rightarrow> piece \<Rightarrow> string" where
  "filled cv rec (Lit s) = s"
| "filled cv rec (Hole n) =
     (case map_of rec n of Some v \<Rightarrow> sprint_v cv v | None \<Rightarrow> ''{{'' @ n @ ''}}'')"

definition spec_render :: "strconv \<Rightarrow> piece list \<Rightarrow> Record \<Rightarrow> string" where
  "spec_render cv ps rec = concat (map (filled cv rec) ps)"

text \<open>One replacement on a plain template: the pieces that are the placeholder become text.\<close>

definition substituted :: "string \<Rightarrow> string \<Rightarrow> piece list \<Rightarrow> piece list" where
  "substituted k new ps = map (\<lambda>p. if p = Hole k then Lit new else p) ps"

section \<open>Properties of validation and construction\<close>




section \<open>Properties of the evaluator\<close>

lemma schedule_append: "schedule (xs @ ys) = schedule xs @ schedule ys"
  by (induction xs rule: schedule.induct) simp_all

lemma admitted_append: "admitted (xs @ ys) = admitted xs @ admitted ys"
  by (induction xs rule: admitted.induct) simp_all

lemma completed_append: "completed (xs @ ys) = completed xs @ completed ys"
  by (induction xs rule: completed.induct) simp_all

lemma makeAPICall_world:
  "fst (makeAPICall cv g http body w) = fst (makeAPICall cv g http body \<lparr>requests = requests w, trace = []\<rparr>)
   \<and> schedule (trace (snd (makeAPICall cv g http body w))) = schedule (trace w)
   \<and> admitted (trace (snd (makeAPICall cv g http body w))) = admitted (trace w)
   \<and> requests w \<le> requests (snd (makeAPICall cv g http body w))"
  by (simp add: makeAPICall_def Let_def logged_def schedule_append admitted_append
           split: sum.splits http_result.splits)

lemma Evaluate_outcome:
  "fst (Evaluate cv g http rec prompt w) = outcome cv g http rec prompt (requests w)"
proof -
  let ?b = "buildRequestBody g (applyPromptTemplate cv prompt rec)"
  obtain r w1 where a: "makeAPICall cv g http ?b w = (r, w1)"
    by (cases "makeAPICall cv g http ?b w")
  obtain r' w2 where b: "makeAPICall cv g http ?b \<lparr>requests = requests w, trace = []\<rparr> = (r', w2)"
    by (cases "makeAPICall cv g http ?b \<lparr>requests = requests w, trace = []\<rparr>")
  from a b makeAPICall_world [of cv g http ?b w] have "r = r'" by simp
  with a b show ?thesis
    by (simp add: outcome_def Evaluate_def Let_def split: sum.splits)
qed

lemma Evaluate_world:
  "schedule (trace (snd (Evaluate cv g http rec prompt w))) = schedule (trace w)
   \<and> admitted (trace (snd (Evaluate cv g http rec prompt w))) = admitted (trace w)
   \<and> requests w \<le> requests (snd (Evaluate cv g http rec prompt w))"
proof -
  let ?b = "buildRequestBody g (applyPromptTemplate cv prompt rec)"
  obtain r w1 where a: "makeAPICall cv g http ?b w = (r, w1)"
    by (cases "makeAPICall cv g http ?b w")
  with makeAPICall_world [of cv g http ?b w]
  have "schedule (trace w1) = schedule (trace w) \<and> admitted (trace w1) = admitted (trace w)
        \<and> requests w \<le> requests w1"
    by simp
  moreover from a have "snd (Evaluate cv g http rec prompt w) = w1"
    by (simp add: Evaluate_def Let_def split: sum.splits)
  ultimately show ?thesis by simp
qed

lemma outcome_Input: "Input (fst (outcome cv g http rec prompt n)) = rec"
  by (simp add: outcome_def Evaluate_def Let_def split: prod.splits sum.splits)

lemma outcome_Error: "Error (fst (outcome cv g http rec prompt n)) = snd (outcome cv g http rec prompt n)"
  by (simp add: outcome_def Evaluate_def Let_def split: prod.splits sum.splits)

lemma outcome_failed:
  "snd (outcome cv g http rec prompt n) = Some err \<Longrightarrow>
   fst (outcome cv g http rec prompt n) = \<lparr>Input = rec, Output = None, Metadata = None, Error = Some err\<rparr>"
  by (auto simp: outcome_def Evaluate_def Let_def split: prod.splits sum.splits)

lemma admitted_schedule: "admitted (schedule evs) = admitted evs"
  by (induction evs rule: schedule.induct) simp_all

lemma completed_schedule: "completed (schedule evs) = completed evs"
  by (induction evs rule: schedule.induct) simp_all

text \<open>One turn of the loop of \<open>BatchEvaluate\<close>.\<close>

lemma batch_loop_step:
  "batch_loop cv g http prompt i (rec # recs) results w =
     batch_loop cv g http prompt (Suc i) recs
       (results[i := fst (outcome cv g http rec prompt (requests w))])
       (logged (Completed i) (snd (Evaluate cv g http rec prompt (logged (Admitted i) w))))"
proof -
  obtain res err w1 where a: "Evaluate cv g http rec prompt (logged (Admitted i) w) = ((res, err), w1)"
    by (cases "Evaluate cv g http rec prompt (logged (Admitted i) w)") auto
  with Evaluate_outcome [of cv g http rec prompt "logged (Admitted i) w"]
  have b: "outcome cv g http rec prompt (requests w) = (res, err)"
    by (simp add: logged_def)
  show ?thesis
  proof (cases err)
    case None
    with a b show ?thesis by simp
  next
    case (Some e)
    with b outcome_failed [of cv g http rec prompt "requests w" e]
    have "res = \<lparr>Input = rec, Output = None, Metadata = None, Error = Some e\<rparr>" by simp
    with a b Some show ?thesis by simp
  qed
qed

lemma batch_loop_spec:
  assumes "i + length recs \<le> length results"
  shows "length (fst (batch_loop cv g http prompt i recs results w)) = length results
    \<and> (\<forall>k. k < i \<or> i + length recs \<le> k \<longrightarrow>
           fst (batch_loop cv g http prompt i recs results w) ! k = results ! k)
    \<and> (\<forall>k < length recs. \<exists>n \<ge> requests w.
           fst (batch_loop cv g http prompt i recs results w) ! (i + k)
             = fst (outcome cv g http (recs ! k) prompt n))
    \<and> schedule (trace (snd (batch_loop cv g http prompt i recs results w)))
        = schedule (trace w) @ concat (map (\<lambda>k. [Admitted k, Completed k]) [i ..< i + length recs])"
  using assms
proof (induction recs arbitrary: i results w)
  case Nil
  then show ?case by simp
next
  case (Cons rec recs)
  let ?r = "results[i := fst (outcome cv g http rec prompt (requests w))]"
  let ?w = "logged (Completed i) (snd (Evaluate cv g http rec prompt (logged (Admitted i) w)))"
  let ?L = "batch_loop cv g http prompt (Suc i) recs ?r ?w"
  have step: "batch_loop cv g http prompt i (rec # recs) results w = ?L"
    by (rule batch_loop_step)
  from Cons.prems have len: "Suc i + length recs \<le> length ?r" by simp
  note IH = Cons.IH [OF len, of ?w]
  have rq: "requests w \<le> requests ?w"
    using Evaluate_world [of cv g http rec prompt "logged (Admitted i) w"]
    by (simp add: logged_def)
  have sch: "schedule (trace ?w) = schedule (trace w) @ [Admitted i, Completed i]"
    using Evaluate_world [of cv g http rec prompt "logged (Admitted i) w"]
    by (simp add: logged_def schedule_append)
  have a: "length (fst ?L) = length results" using IH by simp
  have b: "fst ?L ! k = results ! k" if "k < i \<or> i + length (rec # recs) \<le> k" for k
  proof -
    from that have "k < Suc i \<or> Suc i + length recs \<le> k" by auto
    with IH have "fst ?L ! k = ?r ! k" by blast
    also from that have "?r ! k = results ! k" by auto
    finally show ?thesis .
  qed
  have c: "\<exists>n \<ge> requests w. fst ?L ! (i + k) = fst (outcome cv g http ((rec # recs) ! k) prompt n)"
    if "k < length (rec # recs)" for k
  proof (cases k)
    case 0
    from IH have "fst ?L ! i = ?r ! i" by simp
    also from Cons.prems have "?r ! i = fst (outcome cv g http rec prompt (requests w))" by simp
    finally show ?thesis using 0 by auto
  next
    case (Suc k')
    with that have "k' < length recs" by simp
    with IH obtain n where "n \<ge> requests ?w"
      and "fst ?L ! (Suc i + k') = fst (outcome cv g http (recs ! k') prompt n)"
      by blast
    with rq Suc show ?thesis by (auto intro!: exI [of _ n])
  qed
  have d: "schedule (trace (snd ?L))
        = schedule (trace w) @ concat (map (\<lambda>k. [Admitted k, Completed k]) [i ..< i + length (rec # recs)])"
  proof -
    from IH have "schedule (trace (snd ?L))
        = schedule (trace ?w) @ concat (map (\<lambda>k. [Admitted k, Completed k]) [Suc i ..< Suc i + length recs])"
      by simp
    also have "\<dots> = schedule (trace w) @ concat (map (\<lambda>k. [Admitted k, Completed k]) (i # [Suc i ..< Suc i + length recs]))"
      by (simp add: sch)
    also have "i # [Suc i ..< Suc i + length recs] = [i ..< i + length (rec # recs)]"
      using upt_conv_Cons [of i "Suc i + length recs"] by (simp del: upt_Suc)
    finally show ?thesis .
  qed
  from a b c d show ?case unfolding step by blast
qed

lemma BatchEvaluate_loop:
  "BatchEvaluate cv g http records prompt w =
     ((fst (batch_loop cv g http prompt 0 records (replicate (length records) zero_Result) w), None),
      snd (batch_loop cv g http prompt 0 records (replicate (length records) zero_Result) w))"
  by (simp add: BatchEvaluate_def split: prod.splits)

lemma BatchEvaluate_results:
  "length (fst (fst (BatchEvaluate cv g http records prompt w))) = length records
   \<and> (\<forall>i < length records. \<exists>n \<ge> requests w.
          fst (fst (BatchEvaluate cv g http records prompt w)) ! i
            = fst (outcome cv g http (records ! i) prompt n))
   \<and> schedule (trace (snd (BatchEvaluate cv g http records prompt w)))
        = schedule (trace w) @ concat (map (\<lambda>i. [Admitted i, Completed i]) [0 ..< length records])"
  using batch_loop_spec [of 0 records "replicate (length records) zero_Result" cv g http prompt w]
  by (simp add: BatchEvaluate_loop)

lemma admitted_pairs: "admitted (concat (map (\<lambda>i. [Admitted i, Completed i]) ns)) = ns"
  by (induction ns) simp_all

lemma completed_pairs: "completed (concat (map (\<lambda>i. [Admitted i, Completed i]) ns)) = ns"
  by (induction ns) simp_all

lemma BatchEvaluate_admitted:
  "admitted (trace (snd (BatchEvaluate cv g http records prompt w)))
     = admitted (trace w) @ [0 ..< length records]"
proof -
  have "admitted (trace (snd (BatchEvaluate cv g http records prompt w)))
        = admitted (schedule (trace (snd (BatchEvaluate cv g http records prompt w))))"
    by (simp add: admitted_schedule)
  also have "\<dots> = admitted (schedule (trace w)) @ [0 ..< length records]"
    using BatchEvaluate_results [of cv g http records prompt w]
    by (simp add: admitted_append admitted_pairs)
  finally show ?thesis by (simp add: admitted_schedule)
qed

lemma prefix_pairs_in_flight:
  "prefix q (concat (map (\<lambda>i. [Admitted i, Completed i]) ns)) \<Longrightarrow>
   length (admitted q) \<le> Suc (length (completed q)) \<and> length (completed q) \<le> length (admitted q)"
proof (induction ns arbitrary: q)
  case Nil
  then show ?case by simp
next
  case (Cons i ns)
  show ?case
  proof (cases q)
    case Nil
    then show ?thesis by simp
  next
    case q1: (Cons e q')
    with Cons.prems have e: "e = Admitted i"
      and p': "prefix q' (Completed i # concat (map (\<lambda>i. [Admitted i, Completed i]) ns))"
      by simp_all
    show ?thesis
    proof (cases q')
      case Nil
      with q1 e show ?thesis by simp
    next
      case q2: (Cons e' q'')
      with p' have "e' = Completed i"
        and "prefix q'' (concat (map (\<lambda>i. [Admitted i, Completed i]) ns))"
        by simp_all
      with Cons.IH [of q''] q1 q2 e show ?thesis by simp
    qed
  qed
qed

lemma prefix_schedule: "prefix p t \<Longrightarrow> prefix (schedule p) (schedule t)"
  by (auto simp: prefix_def schedule_append)

lemma in_flight_schedule: "in_flight (schedule evs) = in_flight evs"
  by (simp add: in_flight_def admitted_schedule completed_schedule)

lemma filter_single:
  assumes "j < length xs" and "\<forall>i < length xs. P (xs ! i) \<longleftrightarrow> i = j"
  shows "length (filter P xs) = 1"
proof -
  have xs: "xs = take j xs @ xs ! j # drop (Suc j) xs"
    using assms(1) by (simp add: id_take_nth_drop)
  have a: "filter P (take j xs) = []"
  proof -
    have "\<not> P x" if "x \<in> set (take j xs)" for x
    proof -
      from that obtain i where "i < length (take j xs)" and "take j xs ! i = x"
        by (auto simp: in_set_conv_nth)
      with assms show ?thesis by auto
    qed
    then show ?thesis by (simp add: filter_empty_conv)
  qed
  have b: "filter P (drop (Suc j) xs) = []"
  proof -
    have "\<not> P x" if "x \<in> set (drop (Suc j) xs)" for x
    proof -
      from that obtain i where i: "i < length (drop (Suc j) xs)" and "drop (Suc j) xs ! i = x"
        by (auto simp: in_set_conv_nth)
      then have "xs ! (Suc j + i) = x" and "Suc j + i < length xs" by auto
      with assms(2) show ?thesis by auto
    qed
    then show ?thesis by (simp add: filter_empty_conv)
  qed
  have c: "P (xs ! j)" using assms by simp
  have "filter P xs = filter P (take j xs) @ filter P (xs ! j # drop (Suc j) xs)"
    by (subst xs) (simp only: filter_append)
  with a b c show ?thesis by simp
qed

text \<open>The example inputs, evaluated.\<close>

lemma example_prompt_bad:
  "applyPromptTemplate no_numbers example_prompt [(''text'', GString ''bad'')] = ''Text: bad''"
  by (simp add: applyPromptTemplate_def example_prompt_def ReplaceAll_def)

lemma example_prompt_good:
  "applyPromptTemplate no_numbers example_prompt [(''text'', GString ''good'')] = ''Text: good''"
  by (simp add: applyPromptTemplate_def example_prompt_def ReplaceAll_def)

lemma example_body_bad:
  "Marshal no_numbers (buildRequestBody example_evaluator ''Text: bad'')
     = Inr ''{\"contents\":[{\"parts\":[{\"text\":\"Text: bad\"}]}]}''"
  by code_simp

lemma example_body_good:
  "Marshal no_numbers (buildRequestBody example_evaluator ''Text: good'')
     = Inr ''{\"contents\":[{\"parts\":[{\"text\":\"Text: good\"}]}]}''"
  by code_simp

lemma example_response_decoded:
  "decode_map no_numbers example_response
     = Inr [(''candidates'', GArray [GObject [(''content'', GObject [(''parts'', GArray [GObject [(''text'', GString ''positive'')]])])]])]"
  by code_simp

lemma example_response_parsed:
  "parseResponse no_numbers
     [(''candidates'', GArray [GObject [(''content'', GObject [(''parts'', GArray [GObject [(''text'', GString ''positive'')]])])]])]
     = Inr ([(''response'', GString ''positive'')], [])"
  by code_simp

lemma example_outcome_bad:
  "outcome no_numbers example_evaluator example_provider [(''text'', GString ''bad'')] example_prompt n
     = (\<lparr>Input = [(''text'', GString ''bad'')], Output = None, Metadata = None,
          Error = Some ''API request failed: connection refused''\<rparr>,
        Some ''API request failed: connection refused'')"
  by (simp add: outcome_def Evaluate_def makeAPICall_def Let_def example_prompt_bad example_body_bad
        example_provider_def)

lemma example_outcome_good:
  "outcome no_numbers example_evaluator example_provider [(''text'', GString ''good'')] example_prompt n
     = (\<lparr>Input = [(''text'', GString ''good'')], Output = Some [(''response'', GString ''positive'')],
          Metadata = Some [], Error = None\<rparr>, None)"
  by (simp add: outcome_def Evaluate_def makeAPICall_def Let_def example_prompt_good example_body_good
        example_provider_def example_response_decoded example_response_parsed)

lemma example_evaluate_bad:
  "Evaluate no_numbers example_evaluator example_provider [(''text'', GString ''bad'')] example_prompt w
     = ((\<lparr>Input = [(''text'', GString ''bad'')], Output = None, Metadata = None,
           Error = Some ''API request failed: connection refused''\<rparr>,
         Some ''API request failed: connection refused''),
        logged (Requested ''{\"contents\":[{\"parts\":[{\"text\":\"Text: bad\"}]}]}'')
          (w\<lparr>requests := Suc (requests w)\<rparr>))"
  by (simp add: Evaluate_def makeAPICall_def Let_def example_prompt_bad example_body_bad
        example_provider_def)

lemma example_evaluate_good:
  "Evaluate no_numbers example_evaluator example_provider [(''text'', GString ''good'')] example_prompt w
     = ((\<lparr>Input = [(''text'', GString ''good'')], Output = Some [(''response'', GString ''positive'')],
           Metadata = Some [], Error = None\<rparr>, None),
        logged (Requested ''{\"contents\":[{\"parts\":[{\"text\":\"Text: good\"}]}]}'')
          (w\<lparr>requests := Suc (requests w)\<rparr>))"
  by (simp add: Evaluate_def makeAPICall_def Let_def example_prompt_good example_body_good
        example_provider_def example_response_decoded example_response_parsed)

lemma example_run:
  "BatchEvaluate no_numbers example_evaluator example_provider example_records example_prompt fresh_world
     = (([\<lparr>Input = [(''text'', GString ''bad'')], Output = None, Metadata = None,
            Error = Some ''API request failed: connection refused''\<rparr>,
          \<lparr>Input = [(''text'', GString ''good'')], Output = Some [(''response'', GString ''positive'')],
            Metadata = Some [], Error = None\<rparr>], None),
        \<lparr>requests = 2,
          trace = [Admitted 0, Requested ''{\"contents\":[{\"parts\":[{\"text\":\"Text: bad\"}]}]}'',
                   Completed 0,
                   Admitted 1, Requested ''{\"contents\":[{\"parts\":[{\"text\":\"Text: good\"}]}]}'',
                   Completed 1]\<rparr>)"
  by (simp add: BatchEvaluate_def example_records_def fresh_world_def example_evaluate_bad
        example_evaluate_good logged_def zero_Result_def)

section \<open>Properties of the JSON source\<close>

lemma readJSONArray_empty: "readJSONArray cv j ''[]'' = Inr []"
  by (simp add: readJSONArray_def decode_first_def pinit_def pstep_def start_value_def close_array_def
        push_value_def is_ws_def byte_def)

lemma readJSONLines_empty: "readJSONLines cv j [] = Inr []"
  by (simp add: readJSONLines_def)

lemma read_files_empty_documents:
  assumes "\<forall>f \<in> set files. readFile cv os j f = Inr []" and "\<forall>k. ctx k = None"
  shows "read_files cv os ctx j k acc files = (acc, None)"
  using assms by (induction files arbitrary: k acc) simp_all

lemma example_findFiles: "findFiles (example_os matches bytes) (example_source m) = Inr matches"
  by (simp add: findFiles_def example_os_def example_source_def)

text \<open>The example files, evaluated.\<close>

lemma lines_file_bytes:
  "lines_file = ''{'' @ newline @ ''  \"text\": \"hi\"'' @ newline @ ''}'' @ newline"
  by code_simp

lemma lines_file_written:
  "fst (Write no_numbers (example_os [] []) (example_source ''lines'') background [record_hi]) = None"
  by code_simp

lemma lines_file_read:
  "Read no_numbers (example_os [''out.json''] lines_file) (example_source ''lines'') background
     = ([], Some ''failed to read file out.json: failed to unmarshal line 1: unexpected end of JSON input'')"
  by code_simp

lemma array_file_one_call_bytes:
  "array_file_one_call =
     ''['' @ newline
     @ ''{'' @ newline @ ''  \"text\": \"hi\"'' @ newline @ ''}'' @ newline
     @ '','' @ newline
     @ ''{'' @ newline @ ''  \"text\": \"ho\"'' @ newline @ ''}'' @ newline
     @ newline @ '']''"
  by code_simp

lemma array_file_one_call_read:
  "Read no_numbers (example_os [''out.json''] array_file_one_call) (example_source ''array'') background
     = ([record_hi, record_ho], None)"
  by code_simp

lemma array_file_two_calls_written:
  "fst (Write no_numbers (example_os [] []) (example_source ''array'') background [record_hi]) = None
   \<and> fst (Write no_numbers (example_os [] [])
            (snd (Write no_numbers (example_os [] []) (example_source ''array'') background [record_hi]))
            background [record_ho]) = None"
  by code_simp

lemma array_file_two_calls_bytes:
  "array_file_two_calls =
     ''['' @ newline
     @ ''{'' @ newline @ ''  \"text\": \"hi\"'' @ newline @ ''}'' @ newline
     @ ''{'' @ newline @ ''  \"text\": \"ho\"'' @ newline @ ''}'' @ newline
     @ newline @ '']''"
  by code_simp

lemma array_file_two_calls_parse:
  "parse_json array_file_two_calls = Inl ''invalid character after array element''"
  by code_simp

lemma array_file_one_call_parse:
  "parse_json array_file_one_call
     = Inr (JArr [JObj [(''text'', JStr ''hi'')], JObj [(''text'', JStr ''ho'')]])"
  by code_simp

section \<open>Properties of template rendering\<close>

lemma replace_scan_skip:
  "replace_scan (length u) old new (u @ w) = replace_scan 0 old new w"
  by (induction u) simp_all

lemma replace_scan_match:
  assumes "old \<noteq> []"
  shows "replace_scan 0 old new (old @ w) = new @ replace_scan 0 old new w"
proof -
  from assms obtain c cs where old: "old = c # cs" by (cases old) auto
  have "replace_scan 0 old new (old @ w) = new @ replace_scan (length cs) old new (cs @ w)"
    by (simp add: old)
  then show ?thesis by (simp add: replace_scan_skip)
qed

lemma replace_scan_pass:
  assumes "\<forall>c \<in> set u. c \<noteq> hd old" and "old \<noteq> []"
  shows "replace_scan 0 old new (u @ w) = u @ replace_scan 0 old new w"
  using assms
proof (induction u)
  case Nil
  then show ?case by simp
next
  case (Cons c u)
  from Cons.prems obtain d ds where old: "old = d # ds" by (cases old) auto
  with Cons.prems have "c \<noteq> d" by simp
  then have "\<not> prefix old (c # u @ w)" by (simp add: old)
  with Cons show ?case by simp
qed

lemma placeholder_prefix:
  assumes "brace_free k" and "brace_free n" and "prefix (k @ ''}}'') (n @ ''}}'' @ w)"
  shows "k = n"
  using assms
proof (induction k arbitrary: n)
  case Nil
  then show ?case by (cases n) (auto simp: brace_free_def)
next
  case (Cons a k)
  then show ?case by (cases n) (auto simp: brace_free_def)
qed

lemma replace_scan_other_hole:
  assumes "brace_free k" and "brace_free n" and "n \<noteq> k"
  shows "replace_scan 0 (''{{'' @ k @ ''}}'') new (''{{'' @ n @ ''}}'' @ w)
           = ''{{'' @ n @ ''}}'' @ replace_scan 0 (''{{'' @ k @ ''}}'') new w"
proof -
  let ?old = "''{{'' @ k @ ''}}''"
  have p0: "\<not> prefix ?old (''{{'' @ n @ ''}}'' @ w)"
    using placeholder_prefix [OF assms(1,2), of w] assms(3) by auto
  have p1: "\<not> prefix ?old (''{'' @ n @ ''}}'' @ w)"
    using assms(2) by (cases n) (auto simp: brace_free_def)
  have n: "replace_scan 0 ?old new (n @ ''}}'' @ w) = n @ replace_scan 0 ?old new (''}}'' @ w)"
    using assms(2) by (intro replace_scan_pass) (auto simp: brace_free_def list_all_iff)
  have e: "replace_scan 0 ?old new (''}}'' @ w) = ''}}'' @ replace_scan 0 ?old new w"
    by simp
  have s0: "replace_scan 0 ?old new (''{{'' @ n @ ''}}'' @ w)
          = CHR ''{'' # replace_scan 0 ?old new (''{'' @ n @ ''}}'' @ w)"
    using p0 by simp
  have s1: "replace_scan 0 ?old new (''{'' @ n @ ''}}'' @ w)
          = CHR ''{'' # replace_scan 0 ?old new (n @ ''}}'' @ w)"
    using p1 by simp
  from s0 s1 n e show ?thesis by (simp del: replace_scan.simps)
qed

lemma ReplaceAll_plain:
  assumes "plain_template ps" and "brace_free k"
  shows "ReplaceAll (template_text ps) (''{{'' @ k @ ''}}'') new = template_text (substituted k new ps)"
proof -
  let ?old = "''{{'' @ k @ ''}}''"
  have "replace_scan 0 ?old new (template_text ps) = template_text (substituted k new ps)"
    using assms(1)
  proof (induction ps)
    case Nil
    then show ?case by (simp add: template_text_def substituted_def)
  next
    case (Cons p ps)
    then have IH: "replace_scan 0 ?old new (template_text ps) = template_text (substituted k new ps)"
      and pl: "plain_piece p"
      by (simp_all add: plain_template_def)
    show ?case
    proof (cases p)
      case (Lit s)
      with pl have "\<forall>c \<in> set s. c \<noteq> hd ?old" by (auto simp: brace_free_def list_all_iff)
      then have "replace_scan 0 ?old new (s @ template_text ps) = s @ replace_scan 0 ?old new (template_text ps)"
        by (intro replace_scan_pass) auto
      with Lit IH show ?thesis by (simp add: template_text_def substituted_def)
    next
      case (Hole n)
      show ?thesis
      proof (cases "n = k")
        case True
        have "replace_scan 0 ?old new (?old @ template_text ps) = new @ replace_scan 0 ?old new (template_text ps)"
          by (intro replace_scan_match) simp
        with Hole True IH show ?thesis by (simp add: template_text_def substituted_def)
      next
        case False
        from pl Hole have "brace_free n" by simp
        from replace_scan_other_hole [OF assms(2) this False, of new "template_text ps"]
        have "replace_scan 0 ?old new (''{{'' @ n @ ''}}'' @ template_text ps)
                = ''{{'' @ n @ ''}}'' @ replace_scan 0 ?old new (template_text ps)" .
        with Hole False IH show ?thesis by (simp add: template_text_def substituted_def)
      qed
    qed
  qed
  then show ?thesis by (simp add: ReplaceAll_def)
qed

lemma plain_substituted:
  "plain_template ps \<Longrightarrow> brace_free new \<Longrightarrow> plain_template (substituted k new ps)"
  by (induction ps) (auto simp: plain_template_def substituted_def)

lemma filled_substituted:
  "concat (map (filled cv rec) (substituted k (sprint_v cv v) ps))
     = concat (map (filled cv ((k, v) # rec)) ps)"
proof -
  have "filled cv rec (if p = Hole k then Lit (sprint_v cv v) else p) = filled cv ((k, v) # rec) p" for p
    by (cases p) auto
  then show ?thesis by (simp add: substituted_def comp_def)
qed

lemma applyPromptTemplate_Cons:
  "applyPromptTemplate cv prompt ((k, v) # rec)
     = applyPromptTemplate cv (ReplaceAll prompt (''{{'' @ k @ ''}}'') (sprint_v cv v)) rec"
  by (simp add: applyPromptTemplate_def)

lemma applyPromptTemplate_plain:
  "plain_template ps \<Longrightarrow> plain_record cv rec \<Longrightarrow>
   applyPromptTemplate cv (template_text ps) rec = spec_render cv ps rec"
proof (induction rec arbitrary: ps)
  case Nil
  have "filled cv [] = piece_text"
  proof
    fix p show "filled cv [] p = piece_text p" by (cases p) auto
  qed
  then show ?case by (simp add: applyPromptTemplate_def spec_render_def template_text_def)
next
  case (Cons e rec)
  obtain k v where e: "e = (k, v)" by (cases e)
  from Cons.prems(2) e have k: "brace_free k" and v: "brace_free (sprint_v cv v)"
    and r: "plain_record cv rec"
    by (simp_all add: plain_record_def)
  from plain_substituted [OF Cons.prems(1) v] have p: "plain_template (substituted k (sprint_v cv v) ps)" .
  have "applyPromptTemplate cv (template_text ps) (e # rec)
          = applyPromptTemplate cv (template_text (substituted k (sprint_v cv v) ps)) rec"
    by (simp only: e applyPromptTemplate_Cons ReplaceAll_plain [OF Cons.prems(1) k])
  also have "\<dots> = spec_render cv (substituted k (sprint_v cv v) ps) rec"
    by (rule Cons.IH [OF p r])
  also have "\<dots> = spec_render cv ps (e # rec)"
    by (simp add: spec_render_def e filled_substituted)
  finally show ?case .
qed

lemma text_placeholder_only:
  assumes "prefix (k @ ''}}'') ''text}}''"
  shows "k = ''text''"
proof -
  from assms obtain z where z: "''text}}'' = k @ ''}}'' @ z" by (auto simp: prefix_def)
  then have "length (''text}}'' :: string) = length (k @ ''}}'' @ z)" by simp
  then have len: "length k \<le> 4" by simp
  from z have k: "k = take (length k) ''text}}''" by (metis append_eq_conv_conj)
  from z have d: "take 2 (drop (length k) ''text}}'') = ''}}''"
    by (metis append_eq_conv_conj append_Cons append_Nil length_Cons list.size(3) numeral_2_eq_2)
  from len consider "length k = 0" | "length k = 1" | "length k = 2" | "length k = 3" | "length k = 4"
    by linarith
  then show ?thesis
  proof cases
    case 1 with d show ?thesis by simp
  next
    case 2 with d show ?thesis by simp
  next
    case 3 with d show ?thesis by (simp add: numeral_2_eq_2)
  next
    case 4 with d show ?thesis by (simp add: numeral_3_eq_3)
  next
    case 5 with k show ?thesis by (simp add: numeral_eq_Suc)
  qed
qed

lemma ReplaceAll_example_other:
  assumes "k \<noteq> ''text''"
  shows "ReplaceAll ''Text: {{text}}'' (''{{'' @ k @ ''}}'') new = ''Text: {{text}}''"
proof -
  from assms text_placeholder_only have "\<not> prefix (k @ ''}}'') ''text}}''" by blast
  then show ?thesis by (simp add: ReplaceAll_def)
qed

lemma ReplaceAll_example_text:
  "ReplaceAll ''Text: {{text}}'' (''{{'' @ ''text'' @ ''}}'') new = ''Text: '' @ new"
  by (simp add: ReplaceAll_def replace_scan_skip [of "[]", simplified])

lemma ReplaceAll_example_done:
  "ReplaceAll ''Text: hi'' (''{{'' @ k @ ''}}'') new = ''Text: hi''"
  by (simp add: ReplaceAll_def)

lemma applyPromptTemplate_example_done:
  "applyPromptTemplate cv ''Text: hi'' rec = ''Text: hi''"
proof (induction rec)
  case Nil
  show ?case by (simp add: applyPromptTemplate_def)
next
  case (Cons e rec)
  obtain k v where "e = (k, v)" by (cases e)
  with Cons show ?case by (simp only: applyPromptTemplate_Cons ReplaceAll_example_done)
qed

lemma applyPromptTemplate_example_present:
  "map_of rec ''text'' = Some (GString ''hi'') \<Longrightarrow>
   applyPromptTemplate cv ''Text: {{text}}'' rec = ''Text: hi''"
proof (induction rec)
  case Nil
  then show ?case by simp
next
  case (Cons e rec)
  obtain k v where e: "e = (k, v)" by (cases e)
  show ?case
  proof (cases "k = ''text''")
    case True
    with Cons.prems e have v: "v = GString ''hi''" by simp
    have "applyPromptTemplate cv ''Text: {{text}}'' (e # rec)
            = applyPromptTemplate cv (ReplaceAll ''Text: {{text}}'' (''{{'' @ ''text'' @ ''}}'') ''hi'') rec"
      by (simp only: e True v applyPromptTemplate_Cons sprint_v.simps)
    also have "\<dots> = applyPromptTemplate cv ''Text: hi'' rec"
      by (simp only: ReplaceAll_example_text) simp
    finally show ?thesis by (simp only: applyPromptTemplate_example_done)
  next
    case False
    with Cons.prems e have "map_of rec ''text'' = Some (GString ''hi'')" by simp
    with Cons.IH have "applyPromptTemplate cv ''Text: {{text}}'' rec = ''Text: hi''" by simp
    then show ?thesis
      by (simp only: e applyPromptTemplate_Cons ReplaceAll_example_other [OF False])
  qed
qed

lemma applyPromptTemplate_example_absent:
  "map_of rec ''text'' = None \<Longrightarrow>
   applyPromptTemplate cv ''Text: {{text}}'' rec = ''Text: {{text}}''"
proof (induction rec)
  case Nil
  show ?case by (simp add: applyPromptTemplate_def)
next
  case (Cons e rec)
  obtain k v where e: "e = (k, v)" by (cases e)
  from Cons.prems e have k: "k \<noteq> ''text''" and "map_of rec ''text'' = None"
    by (auto split: if_splits)
  with Cons.IH have "applyPromptTemplate cv ''Text: {{text}}'' rec = ''Text: {{text}}''" by simp
  then show ?case
    by (simp only: e applyPromptTemplate_Cons ReplaceAll_example_other [OF k])
qed

lemma spec_render_cong:
  "map_of rec' = map_of rec \<Longrightarrow> spec_render cv ps rec' = spec_render cv ps rec"
proof -
  assume m: "map_of rec' = map_of rec"
  have "filled cv rec' p = filled cv rec p" for p by (cases p) (simp_all add: m)
  then have "filled cv rec' = filled cv rec" by blast
  then show ?thesis by (simp add: spec_render_def)
qed



text \<open>
  Claim C8, as stated, fails on the code: a configuration whose path is the empty string
  is accepted, and so is one whose mode is the empty string or not a string at all (the
  mode then defaults to \<open>array\<close>).
\<close>

theorem NewJSONSource_empty_path_counterexample:
  "NewJSONSource [(''path'', GString []), (''mode'', GString ''array'')] \<lparr>Fields = []\<rparr>
     = Inr \<lparr>path = [], mode = ''array'', schema = \<lparr>Fields = []\<rparr>, isWritable = False, writer = None\<rparr>
   \<and> NewJSONSource [(''path'', GString ''out.json''), (''mode'', GString [])] \<lparr>Fields = []\<rparr>
     = Inr \<lparr>path = ''out.json'', mode = ''array'', schema = \<lparr>Fields = []\<rparr>, isWritable = False, writer = None\<rparr>
   \<and> NewJSONSource [(''path'', GString ''out.json''), (''mode'', GInt 5)] \<lparr>Fields = []\<rparr>
     = Inr \<lparr>path = ''out.json'', mode = ''array'', schema = \<lparr>Fields = []\<rparr>, isWritable = False, writer = None\<rparr>"
  by (simp add: NewJSONSource_def)

text \<open>
  Claim C8, amended. Construction fails exactly when the configured path is absent or not
  a string, or the configured mode is a non-empty string other than \<open>array\<close> and
  \<open>lines\<close>. For any string path with mode \<open>array\<close> or \<open>lines\<close> it succeeds, keeping
  path, mode and schema; with the mode absent, empty or not a string it succeeds in mode
  \<open>array\<close>.
\<close>

theorem NewJSONSource_succeeds_iff:
  "((\<exists>e. NewJSONSource cfg sch = Inl e) \<longleftrightarrow>
      (\<forall>p. map_of cfg ''path'' \<noteq> Some (GString p))
      \<or> (\<exists>m. map_of cfg ''mode'' = Some (GString m) \<and> m \<noteq> [] \<and> m \<noteq> ''array'' \<and> m \<noteq> ''lines''))
   \<and> (map_of cfg ''path'' = Some (GString p) \<and> map_of cfg ''mode'' = Some (GString m)
          \<and> (m = ''array'' \<or> m = ''lines'')
        \<longrightarrow> NewJSONSource cfg sch
              = Inr \<lparr>path = p, mode = m, schema = sch, isWritable = False, writer = None\<rparr>)
   \<and> (map_of cfg ''path'' = Some (GString p)
          \<and> (\<forall>m. map_of cfg ''mode'' = Some (GString m) \<longrightarrow> m = [])
        \<longrightarrow> NewJSONSource cfg sch
              = Inr \<lparr>path = p, mode = ''array'', schema = sch, isWritable = False, writer = None\<rparr>)"
proof -
  have a: "(\<exists>e. NewJSONSource cfg sch = Inl e) \<longleftrightarrow>
      (\<forall>p. map_of cfg ''path'' \<noteq> Some (GString p))
      \<or> (\<exists>m. map_of cfg ''mode'' = Some (GString m) \<and> m \<noteq> [] \<and> m \<noteq> ''array'' \<and> m \<noteq> ''lines'')"
    by (auto simp: NewJSONSource_def Let_def split: option.splits gvalue.splits)
  have b: "map_of cfg ''path'' = Some (GString p) \<and> map_of cfg ''mode'' = Some (GString m)
          \<and> (m = ''array'' \<or> m = ''lines'')
        \<longrightarrow> NewJSONSource cfg sch
              = Inr \<lparr>path = p, mode = m, schema = sch, isWritable = False, writer = None\<rparr>"
    by (auto simp: NewJSONSource_def Let_def)
  have c: "map_of cfg ''path'' = Some (GString p)
          \<and> (\<forall>m. map_of cfg ''mode'' = Some (GString m) \<longrightarrow> m = [])
        \<longrightarrow> NewJSONSource cfg sch
              = Inr \<lparr>path = p, mode = ''array'', schema = sch, isWritable = False, writer = None\<rparr>"
    by (auto simp: NewJSONSource_def Let_def split: option.splits gvalue.splits)
  from a b c show ?thesis by blast
qed

theorem NewJSONSource_succeeds_iff_witness:
  "NewJSONSource [(''path'', GString ''data/*.json''), (''mode'', GString ''lines'')] \<lparr>Fields = []\<rparr>
     = Inr \<lparr>path = ''data/*.json'', mode = ''lines'', schema = \<lparr>Fields = []\<rparr>,
            isWritable = False, writer = None\<rparr>
   \<and> NewJSONSource [(''path'', GString ''data/*.json'')] \<lparr>Fields = []\<rparr>
     = Inr \<lparr>path = ''data/*.json'', mode = ''array'', schema = \<lparr>Fields = []\<rparr>,
            isWritable = False, writer = None\<rparr>
   \<and> (\<exists>e. NewJSONSource [(''mode'', GString ''lines'')] \<lparr>Fields = []\<rparr> = Inl e)
   \<and> (\<exists>e. NewJSONSource [(''path'', GString ''a.json''), (''mode'', GString ''csv'')] \<lparr>Fields = []\<rparr> = Inl e)"
  using NewJSONSource_succeeds_iff
      [of "[(''path'', GString ''data/*.json''), (''mode'', GString ''lines'')]" "\<lparr>Fields = []\<rparr>"
          "''data/*.json''" "''lines''"]
    NewJSONSource_succeeds_iff
      [of "[(''path'', GString ''data/*.json'')]" "\<lparr>Fields = []\<rparr>" "''data/*.json''" "[]"]
    NewJSONSource_succeeds_iff
      [of "[(''mode'', GString ''lines'')]" "\<lparr>Fields = []\<rparr>" "[]" "[]"]
    NewJSONSource_succeeds_iff
      [of "[(''path'', GString ''a.json''), (''mode'', GString ''csv'')]" "\<lparr>Fields = []\<rparr>" "[]" "[]"]
  by simp

section \<open>Properties of batch evaluation\<close>

text \<open>
  Claim C2, as stated, fails on the code in its second half: \<open>BatchEvaluate\<close> has no
  \<open>fail\<close> mode. In the example the first record fails, yet the second record is admitted
  and evaluated after that failure, and the run reports no error.
\<close>

theorem BatchEvaluate_fail_policy_counterexample:
  "Error (fst (fst (BatchEvaluate no_numbers example_evaluator example_provider example_records
                       example_prompt fresh_world)) ! 0) = Some ''API request failed: connection refused''
   \<and> admitted (trace (snd (BatchEvaluate no_numbers example_evaluator example_provider example_records
                       example_prompt fresh_world))) = [0, 1]
   \<and> Output (fst (fst (BatchEvaluate no_numbers example_evaluator example_provider example_records
                       example_prompt fresh_world)) ! 1) = Some [(''response'', GString ''positive'')]
   \<and> snd (fst (BatchEvaluate no_numbers example_evaluator example_provider example_records
               example_prompt fresh_world)) = None"
  by (simp add: example_run)

text \<open>
  Claim C2, amended. \<open>BatchEvaluate\<close> takes no on-error mode. For a batch in which the
  evaluation of exactly one record always fails and that of every other record always
  succeeds, it returns as many results as records, exactly one of them a failure (the
  one of the failing record), returns a nil error, and hands every record to \<open>Evaluate\<close>,
  those after the failing one included.
\<close>

theorem BatchEvaluate_one_failure:
  assumes "j < length records"
    and "\<forall>n. snd (outcome cv g http (records ! j) prompt n) \<noteq> None"
    and "\<forall>i < length records. i \<noteq> j \<longrightarrow> (\<forall>n. snd (outcome cv g http (records ! i) prompt n) = None)"
  shows "length (fst (fst (BatchEvaluate cv g http records prompt w))) = length records
    \<and> length (filter (\<lambda>r. Error r \<noteq> None) (fst (fst (BatchEvaluate cv g http records prompt w)))) = 1
    \<and> Error (fst (fst (BatchEvaluate cv g http records prompt w)) ! j) \<noteq> None
    \<and> snd (fst (BatchEvaluate cv g http records prompt w)) = None
    \<and> admitted (trace (snd (BatchEvaluate cv g http records prompt w)))
        = admitted (trace w) @ [0 ..< length records]"
proof -
  let ?rs = "fst (fst (BatchEvaluate cv g http records prompt w))"
  note r = BatchEvaluate_results [of cv g http records prompt w]
  then have len: "length ?rs = length records" by simp
  have e: "Error (?rs ! i) \<noteq> None \<longleftrightarrow> i = j" if "i < length records" for i
  proof -
    from r that obtain n where "?rs ! i = fst (outcome cv g http (records ! i) prompt n)"
      by blast
    then have "Error (?rs ! i) = snd (outcome cv g http (records ! i) prompt n)"
      by (simp add: outcome_Error)
    with assms(2,3) that show ?thesis by (cases "i = j") auto
  qed
  from assms(1) len e have "length (filter (\<lambda>r. Error r \<noteq> None) ?rs) = 1"
    by (intro filter_single [of j]) auto
  moreover from e assms(1) have "Error (?rs ! j) \<noteq> None" by blast
  moreover have "snd (fst (BatchEvaluate cv g http records prompt w)) = None"
    by (simp add: BatchEvaluate_loop)
  ultimately show ?thesis
    using len BatchEvaluate_admitted [of cv g http records prompt w] by blast
qed

theorem BatchEvaluate_one_failure_witness:
  "length (fst (fst (BatchEvaluate no_numbers example_evaluator example_provider example_records
                       example_prompt fresh_world))) = 2
   \<and> length (filter (\<lambda>r. Error r \<noteq> None)
        (fst (fst (BatchEvaluate no_numbers example_evaluator example_provider example_records
                       example_prompt fresh_world)))) = 1
   \<and> Error (fst (fst (BatchEvaluate no_numbers example_evaluator example_provider example_records
                       example_prompt fresh_world)) ! 0) \<noteq> None
   \<and> snd (fst (BatchEvaluate no_numbers example_evaluator example_provider example_records
               example_prompt fresh_world)) = None
   \<and> admitted (trace (snd (BatchEvaluate no_numbers example_evaluator example_provider example_records
                       example_prompt fresh_world))) = [0, 1]"
proof -
  have h1: "0 < length example_records" by (simp add: example_records_def)
  have h2: "\<forall>n. snd (outcome no_numbers example_evaluator example_provider (example_records ! 0)
                      example_prompt n) \<noteq> None"
    by (simp add: example_records_def example_outcome_bad)
  have h3: "\<forall>i < length example_records. i \<noteq> 0 \<longrightarrow>
      (\<forall>n. snd (outcome no_numbers example_evaluator example_provider (example_records ! i)
                  example_prompt n) = None)"
    by (auto simp: example_records_def example_outcome_good less_Suc_eq)
  have e: "[0 ..< 2] = [0, Suc 0]" by (simp add: upt_rec)
  from BatchEvaluate_one_failure [OF h1 h2 h3, of fresh_world] e show ?thesis
    by (simp add: example_records_def fresh_world_def)
qed

text \<open>
  Claim C3. The loop of \<open>BatchEvaluate\<close> evaluates one record at a time: started on an
  empty trace, at every moment of the run at most one evaluation is in flight, hence at
  most \<open>k\<close> for every concurrency bound \<open>k \<ge> 1\<close>; and the admissions and completions
  alternate in input order, so that each completion is followed at once by the admission
  of the next pending record, if there is one.
\<close>

theorem BatchEvaluate_in_flight_bound:
  "(1 \<le> k \<and> prefix p (trace (snd (BatchEvaluate cv g http records prompt \<lparr>requests = n, trace = []\<rparr>)))
      \<longrightarrow> in_flight p \<le> k)
   \<and> schedule (trace (snd (BatchEvaluate cv g http records prompt \<lparr>requests = n, trace = []\<rparr>)))
       = concat (map (\<lambda>i. [Admitted i, Completed i]) [0 ..< length records])"
proof -
  let ?t = "trace (snd (BatchEvaluate cv g http records prompt \<lparr>requests = n, trace = []\<rparr>))"
  have s: "schedule ?t = concat (map (\<lambda>i. [Admitted i, Completed i]) [0 ..< length records])"
    using BatchEvaluate_results [of cv g http records prompt "\<lparr>requests = n, trace = []\<rparr>"] by simp
  have "in_flight p \<le> k" if "1 \<le> k" and "prefix p ?t"
  proof -
    from that(2) have "prefix (schedule p) (schedule ?t)" by (rule prefix_schedule)
    with s prefix_pairs_in_flight [of "schedule p" "[0 ..< length records]"]
    have "length (admitted (schedule p)) \<le> Suc (length (completed (schedule p)))" by simp
    then have "in_flight (schedule p) \<le> 1" by (simp add: in_flight_def)
    with that(1) show ?thesis by (simp add: in_flight_schedule)
  qed
  with s show ?thesis by blast
qed

theorem BatchEvaluate_in_flight_bound_witness:
  "(1::nat) \<le> 4
   \<and> prefix [Admitted 0, Requested ''{\"contents\":[{\"parts\":[{\"text\":\"Text: bad\"}]}]}'',
             Completed 0, Admitted 1]
        (trace (snd (BatchEvaluate no_numbers example_evaluator example_provider example_records
                       example_prompt \<lparr>requests = 0, trace = []\<rparr>)))
   \<and> in_flight [Admitted 0, Requested ''{\"contents\":[{\"parts\":[{\"text\":\"Text: bad\"}]}]}'',
                Completed 0, Admitted 1] \<le> 4
   \<and> schedule (trace (snd (BatchEvaluate no_numbers example_evaluator example_provider example_records
                       example_prompt \<lparr>requests = 0, trace = []\<rparr>)))
       = [Admitted 0, Completed 0, Admitted 1, Completed 1]"
proof -
  let ?p = "[Admitted 0, Requested ''{\"contents\":[{\"parts\":[{\"text\":\"Text: bad\"}]}]}'',
             Completed 0, Admitted 1]"
  note t = BatchEvaluate_in_flight_bound [of 4 ?p no_numbers example_evaluator example_provider
      example_records example_prompt 0]
  have p: "prefix ?p (trace (snd (BatchEvaluate no_numbers example_evaluator example_provider
      example_records example_prompt \<lparr>requests = 0, trace = []\<rparr>)))"
    using example_run by (simp add: fresh_world_def)
  have l: "[0 ..< length example_records] = [0, Suc 0]" by (simp add: example_records_def upt_rec)
  from t p l show ?thesis by simp
qed

text \<open>
  Claim C4. For every list of records and prompt template, \<open>BatchEvaluate\<close> returns as
  many results as records, result \<open>i\<close> is what \<open>Evaluate\<close> returns for record \<open>i\<close> and
  carries that record as its input, and every record is handed to \<open>Evaluate\<close>, in input
  order, whatever the earlier evaluations returned: a failure does not abort the batch.
\<close>

theorem BatchEvaluate_aligned:
  "length (fst (fst (BatchEvaluate cv g http records prompt w))) = length records
   \<and> (\<forall>i < length records.
         Input (fst (fst (BatchEvaluate cv g http records prompt w)) ! i) = records ! i
         \<and> (\<exists>n. fst (fst (BatchEvaluate cv g http records prompt w)) ! i
                  = fst (outcome cv g http (records ! i) prompt n)))
   \<and> admitted (trace (snd (BatchEvaluate cv g http records prompt w)))
        = admitted (trace w) @ [0 ..< length records]"
proof -
  note r = BatchEvaluate_results [of cv g http records prompt w]
  have "Input (fst (fst (BatchEvaluate cv g http records prompt w)) ! i) = records ! i
          \<and> (\<exists>n. fst (fst (BatchEvaluate cv g http records prompt w)) ! i
                  = fst (outcome cv g http (records ! i) prompt n))"
    if "i < length records" for i
  proof -
    from r that obtain n where
      n: "fst (fst (BatchEvaluate cv g http records prompt w)) ! i
            = fst (outcome cv g http (records ! i) prompt n)"
      by blast
    then show ?thesis by (auto simp: outcome_Input)
  qed
  with r BatchEvaluate_admitted [of cv g http records prompt w] show ?thesis by blast
qed

theorem BatchEvaluate_aligned_witness:
  "length (fst (fst (BatchEvaluate no_numbers example_evaluator example_provider example_records
                       example_prompt fresh_world))) = 2
   \<and> Input (fst (fst (BatchEvaluate no_numbers example_evaluator example_provider example_records
                       example_prompt fresh_world)) ! 0) = [(''text'', GString ''bad'')]
   \<and> Input (fst (fst (BatchEvaluate no_numbers example_evaluator example_provider example_records
                       example_prompt fresh_world)) ! 1) = [(''text'', GString ''good'')]
   \<and> admitted (trace (snd (BatchEvaluate no_numbers example_evaluator example_provider example_records
                       example_prompt fresh_world))) = [0, 1]"
proof -
  note t = BatchEvaluate_aligned [of no_numbers example_evaluator example_provider example_records
      example_prompt fresh_world]
  have l: "length example_records = 2" by (simp add: example_records_def)
  from t l have a: "length (fst (fst (BatchEvaluate no_numbers example_evaluator example_provider
      example_records example_prompt fresh_world))) = 2" by simp
  from t l have b: "Input (fst (fst (BatchEvaluate no_numbers example_evaluator example_provider
      example_records example_prompt fresh_world)) ! 0) = example_records ! 0" by simp
  from t l have c: "Input (fst (fst (BatchEvaluate no_numbers example_evaluator example_provider
      example_records example_prompt fresh_world)) ! 1) = example_records ! 1" by simp
  from t l have d: "admitted (trace (snd (BatchEvaluate no_numbers example_evaluator example_provider
      example_records example_prompt fresh_world))) = admitted (trace fresh_world) @ [0 ..< 2]" by simp
  have e: "[0 ..< 2] = [0, Suc 0]" by (simp add: upt_rec)
  from a b c d e show ?thesis by (simp add: example_records_def fresh_world_def)
qed

text \<open>
  Claim C10. \<open>BatchEvaluate\<close> always returns a nil error; whether the evaluation of
  record \<open>i\<close> failed shows in the \<open>Error\<close> field of result \<open>i\<close>, which holds the error
  that \<open>Evaluate\<close> returned for that record, and nowhere else.
\<close>

theorem BatchEvaluate_nil_error:
  "snd (fst (BatchEvaluate cv g http records prompt w)) = None
   \<and> (\<forall>i < length records. \<exists>n.
         fst (fst (BatchEvaluate cv g http records prompt w)) ! i
           = fst (outcome cv g http (records ! i) prompt n)
         \<and> Error (fst (fst (BatchEvaluate cv g http records prompt w)) ! i)
           = snd (outcome cv g http (records ! i) prompt n))"
proof -
  note r = BatchEvaluate_results [of cv g http records prompt w]
  have "\<exists>n. fst (fst (BatchEvaluate cv g http records prompt w)) ! i
           = fst (outcome cv g http (records ! i) prompt n)
         \<and> Error (fst (fst (BatchEvaluate cv g http records prompt w)) ! i)
           = snd (outcome cv g http (records ! i) prompt n)"
    if "i < length records" for i
  proof -
    from r that obtain n where
      n: "fst (fst (BatchEvaluate cv g http records prompt w)) ! i
            = fst (outcome cv g http (records ! i) prompt n)"
      by blast
    then show ?thesis by (auto simp: outcome_Error)
  qed
  then show ?thesis by (simp add: BatchEvaluate_loop)
qed

theorem BatchEvaluate_nil_error_witness:
  "snd (fst (BatchEvaluate no_numbers example_evaluator example_provider example_records
               example_prompt fresh_world)) = None
   \<and> Error (fst (fst (BatchEvaluate no_numbers example_evaluator example_provider example_records
                       example_prompt fresh_world)) ! 0) = Some ''API request failed: connection refused''
   \<and> Error (fst (fst (BatchEvaluate no_numbers example_evaluator example_provider example_records
                       example_prompt fresh_world)) ! 1) = None"
proof -
  note t = BatchEvaluate_nil_error [of no_numbers example_evaluator example_provider example_records
      example_prompt fresh_world]
  have l: "length example_records = 2" by (simp add: example_records_def)
  from t have q: "\<exists>n. Error (fst (fst (BatchEvaluate no_numbers example_evaluator
      example_provider example_records example_prompt fresh_world)) ! i)
      = snd (outcome no_numbers example_evaluator example_provider (example_records ! i) example_prompt n)"
    if "i < length example_records" for i
    using that by blast
  from q [of 0] l obtain n0 where "Error (fst (fst (BatchEvaluate no_numbers example_evaluator
      example_provider example_records example_prompt fresh_world)) ! 0)
      = snd (outcome no_numbers example_evaluator example_provider (example_records ! 0) example_prompt n0)"
    by auto
  then have a: "Error (fst (fst (BatchEvaluate no_numbers example_evaluator
      example_provider example_records example_prompt fresh_world)) ! 0)
      = Some ''API request failed: connection refused''"
    by (simp add: example_records_def example_outcome_bad)
  from q [of 1] l obtain n1 where "Error (fst (fst (BatchEvaluate no_numbers example_evaluator
      example_provider example_records example_prompt fresh_world)) ! 1)
      = snd (outcome no_numbers example_evaluator example_provider (example_records ! 1) example_prompt n1)"
    by auto
  then have b: "Error (fst (fst (BatchEvaluate no_numbers example_evaluator
      example_provider example_records example_prompt fresh_world)) ! 1) = None"
    by (simp add: example_records_def example_outcome_good)
  from t a b show ?thesis by simp
qed

section \<open>Properties of reading and writing\<close>

text \<open>
  Claim C7. \<open>Read\<close> returns an error, not an empty result, when the path resolves to no
  file. When the context is live and every resolved file is the empty array document
  \<open>[]\<close> (in \<open>array\<close> mode) or an empty file (in any other mode, that is \<open>lines\<close>), it
  returns no record and no error, whatever fields the schema requires.
\<close>

theorem Read_no_files_or_empty_files:
  "(findFiles os j = Inr [] \<longrightarrow>
      Read cv os j ctx = ([], Some (''no files found matching pattern: '' @ path j)))
   \<and> (findFiles os j = Inr files \<and> files \<noteq> [] \<and> (\<forall>k. ctx k = None)
        \<and> mode j = ''array'' \<and> (\<forall>f \<in> set files. open_file os f = Inr ''[]'')
      \<longrightarrow> Read cv os j ctx = ([], None))
   \<and> (findFiles os j = Inr files \<and> files \<noteq> [] \<and> (\<forall>k. ctx k = None)
        \<and> mode j \<noteq> ''array'' \<and> (\<forall>f \<in> set files. open_file os f = Inr [])
      \<longrightarrow> Read cv os j ctx = ([], None))
   \<and> readJSONArray cv j ''[]'' = Inr []
   \<and> readJSONLines cv j [] = Inr []"
proof -
  have a: "findFiles os j = Inr [] \<longrightarrow>
      Read cv os j ctx = ([], Some (''no files found matching pattern: '' @ path j))"
    by (simp add: Read_def)
  have b: "Read cv os j ctx = ([], None)"
    if "findFiles os j = Inr files" "files \<noteq> []" "\<forall>k. ctx k = None"
      "mode j = ''array''" "\<forall>f \<in> set files. open_file os f = Inr ''[]''"
  proof -
    from that(4,5) have "\<forall>f \<in> set files. readFile cv os j f = Inr []"
      by (simp add: readFile_def readJSONArray_empty)
    from read_files_empty_documents [OF this that(3)] that(1,2) show ?thesis
      by (simp add: Read_def)
  qed
  have c: "Read cv os j ctx = ([], None)"
    if "findFiles os j = Inr files" "files \<noteq> []" "\<forall>k. ctx k = None"
      "mode j \<noteq> ''array''" "\<forall>f \<in> set files. open_file os f = Inr []"
  proof -
    from that(4,5) have "\<forall>f \<in> set files. readFile cv os j f = Inr []"
      by (simp add: readFile_def readJSONLines_empty)
    from read_files_empty_documents [OF this that(3)] that(1,2) show ?thesis
      by (simp add: Read_def)
  qed
  from a b c readJSONArray_empty [of cv j] readJSONLines_empty [of cv j] show ?thesis by blast
qed

theorem Read_no_files_or_empty_files_witness:
  "Read no_numbers (example_os [] []) (example_source ''lines'') background
     = ([], Some ''no files found matching pattern: out.json'')
   \<and> Read no_numbers (example_os [''out.json''] ''[]'') (example_source ''array'') background = ([], None)
   \<and> Read no_numbers (example_os [''out.json''] []) (example_source ''lines'') background = ([], None)"
  using
    Read_no_files_or_empty_files [of "example_os [] []" "example_source ''lines''" no_numbers background "[]"]
    Read_no_files_or_empty_files [of "example_os [''out.json''] ''[]''" "example_source ''array''"
      no_numbers background "[''out.json'']"]
    Read_no_files_or_empty_files [of "example_os [''out.json''] []" "example_source ''lines''"
      no_numbers background "[''out.json'']"]
  by (simp add: example_findFiles background_def) (simp add: example_os_def example_source_def)

text \<open>
  Claim C1 holds in \<open>array\<close> mode on the example and fails in \<open>lines\<close> mode: \<open>Write\<close>
  sets the encoder's indentation in both modes, so one record with a field spreads over
  several lines of the file, and \<open>Read\<close>, which decodes every line as one record, fails
  on the first line of the file that \<open>Write\<close> produced.
\<close>

theorem lines_mode_write_not_read_back:
  "fst (Write no_numbers (example_os [] []) (example_source ''lines'') background [record_hi]) = None
   \<and> lines_file = ''{'' @ newline @ ''  \"text\": \"hi\"'' @ newline @ ''}'' @ newline
   \<and> Read no_numbers (example_os [''out.json''] lines_file) (example_source ''lines'') background
       = ([], Some ''failed to read file out.json: failed to unmarshal line 1: unexpected end of JSON input'')
   \<and> Read no_numbers (example_os [''out.json''] array_file_one_call) (example_source ''array'') background
       = ([record_hi, record_ho], None)"
  using lines_file_written lines_file_bytes lines_file_read array_file_one_call_read by simp

text \<open>
  Claim C9 holds on the example for a single call of \<open>Write\<close> and fails for two calls:
  the separator is written for every record but the first of a call, so nothing separates
  the last record of one call from the first record of the next, and the closed file is
  not a JSON array.
\<close>

theorem array_mode_two_writes_not_json:
  "fst (Write no_numbers (example_os [] []) (example_source ''array'') background [record_hi]) = None
   \<and> fst (Write no_numbers (example_os [] [])
            (snd (Write no_numbers (example_os [] []) (example_source ''array'') background [record_hi]))
            background [record_ho]) = None
   \<and> array_file_two_calls =
       ''['' @ newline
       @ ''{'' @ newline @ ''  \"text\": \"hi\"'' @ newline @ ''}'' @ newline
       @ ''{'' @ newline @ ''  \"text\": \"ho\"'' @ newline @ ''}'' @ newline
       @ newline @ '']''
   \<and> parse_json array_file_two_calls = Inl ''invalid character after array element''
   \<and> array_file_one_call =
       ''['' @ newline
       @ ''{'' @ newline @ ''  \"text\": \"hi\"'' @ newline @ ''}'' @ newline
       @ '','' @ newline
       @ ''{'' @ newline @ ''  \"text\": \"ho\"'' @ newline @ ''}'' @ newline
       @ newline @ '']''
   \<and> parse_json array_file_one_call
       = Inr (JArr [JObj [(''text'', JStr ''hi'')], JObj [(''text'', JStr ''ho'')]])"
  using array_file_two_calls_written array_file_two_calls_bytes array_file_two_calls_parse
    array_file_one_call_bytes array_file_one_call_parse
  by simp

section \<open>Properties of the prompt template\<close>

text \<open>
  Claim C6, as stated, fails on the code in its general part. The replacements are made
  one field after the other, in the order in which the map is visited, on the text that
  the earlier replacements left: when the value of field \<open>a\<close> is the text \<open>{{b}}\<close>, the
  template \<open>{{a}}\<close> is rendered as the value of \<open>b\<close> if \<open>a\<close> is visited first, and as
  the value of \<open>a\<close> if \<open>b\<close> is visited first.
\<close>

theorem applyPromptTemplate_order_counterexample:
  "applyPromptTemplate no_numbers ''{{a}}'' [(''a'', GString ''{{b}}''), (''b'', GString ''x'')] = ''x''
   \<and> applyPromptTemplate no_numbers ''{{a}}'' [(''b'', GString ''x''), (''a'', GString ''{{b}}'')] = ''{{b}}''"
  by (simp add: applyPromptTemplate_def ReplaceAll_def)

text \<open>
  Claim C6, amended. For a plain template (no brace in its literal text or placeholder
  names) and a plain record (no brace in its field names or in the texts of its values),
  rendering replaces every placeholder of a field present in the record by the text of
  that field's value and leaves every other placeholder verbatim, whatever the order in
  which the record is visited. For every record, the template \<open>Text: {{text}}\<close> yields
  exactly \<open>Text: hi\<close> when the record maps \<open>text\<close> to \<open>"hi"\<close>, and the template unchanged
  when the record lacks \<open>text\<close>. Rendering never fails.
\<close>

theorem applyPromptTemplate_plain_templates:
  "(plain_template ps \<and> plain_record cv rec
      \<longrightarrow> applyPromptTemplate cv (template_text ps) rec = spec_render cv ps rec)
   \<and> (plain_template ps \<and> plain_record cv rec \<and> plain_record cv rec' \<and> map_of rec' = map_of rec
      \<longrightarrow> applyPromptTemplate cv (template_text ps) rec' = applyPromptTemplate cv (template_text ps) rec)
   \<and> (map_of rec ''text'' = Some (GString ''hi'')
      \<longrightarrow> applyPromptTemplate cv ''Text: {{text}}'' rec = ''Text: hi'')
   \<and> (map_of rec ''text'' = None
      \<longrightarrow> applyPromptTemplate cv ''Text: {{text}}'' rec = ''Text: {{text}}'')"
proof -
  have a: "plain_template ps \<and> plain_record cv rec
      \<longrightarrow> applyPromptTemplate cv (template_text ps) rec = spec_render cv ps rec"
    by (simp add: applyPromptTemplate_plain)
  have b: "plain_template ps \<and> plain_record cv rec \<and> plain_record cv rec' \<and> map_of rec' = map_of rec
      \<longrightarrow> applyPromptTemplate cv (template_text ps) rec' = applyPromptTemplate cv (template_text ps) rec"
  proof
    assume h: "plain_template ps \<and> plain_record cv rec \<and> plain_record cv rec' \<and> map_of rec' = map_of rec"
    then have "applyPromptTemplate cv (template_text ps) rec' = spec_render cv ps rec'"
      and "applyPromptTemplate cv (template_text ps) rec = spec_render cv ps rec"
      by (simp_all add: applyPromptTemplate_plain)
    moreover from h have "spec_render cv ps rec' = spec_render cv ps rec"
      by (intro spec_render_cong) simp
    ultimately show "applyPromptTemplate cv (template_text ps) rec'
        = applyPromptTemplate cv (template_text ps) rec"
      by simp
  qed
  have c: "map_of rec ''text'' = Some (GString ''hi'')
      \<longrightarrow> applyPromptTemplate cv ''Text: {{text}}'' rec = ''Text: hi''"
    by (simp add: applyPromptTemplate_example_present)
  have d: "map_of rec ''text'' = None
      \<longrightarrow> applyPromptTemplate cv ''Text: {{text}}'' rec = ''Text: {{text}}''"
    by (simp add: applyPromptTemplate_example_absent)
  from a b c d show ?thesis by blast
qed

theorem applyPromptTemplate_plain_templates_witness:
  "applyPromptTemplate no_numbers ''Text: {{text}} ({{lang}})'' [(''text'', GString ''hi''), (''ok'', GBool True)]
     = ''Text: hi ({{lang}})''
   \<and> applyPromptTemplate no_numbers ''Text: {{text}} ({{lang}})'' [(''ok'', GBool True), (''text'', GString ''hi'')]
     = applyPromptTemplate no_numbers ''Text: {{text}} ({{lang}})'' [(''text'', GString ''hi''), (''ok'', GBool True)]
   \<and> applyPromptTemplate no_numbers ''Text: {{text}}'' [(''text'', GString ''hi''), (''ok'', GBool True)]
     = ''Text: hi''
   \<and> applyPromptTemplate no_numbers ''Text: {{text}}'' [(''ok'', GBool True)] = ''Text: {{text}}''"
proof -
  let ?ps = "[Lit ''Text: '', Hole ''text'', Lit '' ('', Hole ''lang'', Lit '')'']"
  let ?r = "[(''text'', GString ''hi''), (''ok'', GBool True)]"
  let ?r' = "[(''ok'', GBool True), (''text'', GString ''hi'')]"
  have t: "template_text ?ps = ''Text: {{text}} ({{lang}})''" by (simp add: template_text_def)
  have p: "plain_template ?ps" by (simp add: plain_template_def brace_free_def)
  have r: "plain_record no_numbers ?r" "plain_record no_numbers ?r'"
    by (simp_all add: plain_record_def brace_free_def)
  have m: "map_of ?r' = map_of ?r" by (rule ext) simp
  have s: "spec_render no_numbers ?ps ?r = ''Text: hi ({{lang}})''" by (simp add: spec_render_def)
  from applyPromptTemplate_plain_templates [of ?ps no_numbers ?r ?r'] p r m s t
  have a: "applyPromptTemplate no_numbers ''Text: {{text}} ({{lang}})'' ?r = ''Text: hi ({{lang}})''"
    and b: "applyPromptTemplate no_numbers ''Text: {{text}} ({{lang}})'' ?r'
              = applyPromptTemplate no_numbers ''Text: {{text}} ({{lang}})'' ?r"
    by simp_all
  from applyPromptTemplate_plain_templates [of ?ps no_numbers ?r ?r']
  have c: "applyPromptTemplate no_numbers ''Text: {{text}}'' ?r = ''Text: hi''" by simp
  from applyPromptTemplate_plain_templates [of ?ps no_numbers "[(''ok'', GBool True)]" ?r']
  have d: "applyPromptTemplate no_numbers ''Text: {{text}}'' [(''ok'', GBool True)] = ''Text: {{text}}''"
    by simp
  from a b c d show ?thesis by blast
qed

end
